theory Spec2Isabelle
  imports Main "HOL-Library.Word"
begin

section \<open>JavaScript values\<close>

text \<open>
  A JavaScript string is a sequence of UTF-16 code units, a \<open>Uint8Array\<close> a sequence of
  bytes. String literals of the source are written \<open>js ''...''\<close>.
\<close>

type_synonym code_unit = "16 word"
type_synonym js_string = "code_unit list"
type_synonym byte = "8 word"
type_synonym addr = nat

definition js :: "string \<Rightarrow> js_string" where
  "js s = map of_char s"

text \<open>
  Plain data as the module reads it dynamically: the value thrown by a processor
  (\<open>ex.message\<close>, \<open>ex.lineNumber\<close>, \<open>ex.column\<close>), a value returned where an
  array was expected, and the dynamically typed fields of a diagnostic. An object is
  the list of its properties as a property read sees them (own or inherited); it
  carries no callable property.
\<close>

datatype js_value =
    Undefined
  | Null
  | Boolean bool
  | Number int
  | String js_string
  | Object "(string \<times> js_value) list"

text \<open>An expression either yields a value or throws one.\<close>

datatype 'a completion = Normal 'a | Throw js_value

text \<open>The error objects the runtime and the module itself create.\<close>

definition error_object :: "string \<Rightarrow> string \<Rightarrow> js_value" where
  "error_object name msg =
     Object [(''name'', String (js name)), (''message'', String (js msg))]"

definition TypeError :: "string \<Rightarrow> js_value" where
  "TypeError msg = error_object ''TypeError'' msg"

definition RangeError :: "string \<Rightarrow> js_value" where
  "RangeError msg = error_object ''RangeError'' msg"

definition Error :: "string \<Rightarrow> js_value" where
  "Error msg = error_object ''Error'' msg"

text \<open>
  \<open>v.p\<close> for the property names this module reads from dynamic values (\<open>message\<close>,
  \<open>lineNumber\<close>, \<open>column\<close>, \<open>then\<close>): reading from \<open>undefined\<close> or \<open>null\<close> throws a
  \<open>TypeError\<close>; a primitive has none of these properties; an object has those it lists.
\<close>

fun Get :: "js_value \<Rightarrow> string \<Rightarrow> js_value completion" where
  "Get Undefined p = Throw (TypeError ''Cannot read properties of undefined'')"
| "Get Null p = Throw (TypeError ''Cannot read properties of null'')"
| "Get (Object ps) p = Normal (case map_of ps p of Some v \<Rightarrow> v | None \<Rightarrow> Undefined)"
| "Get v p = Normal Undefined"

fun typeof :: "js_value \<Rightarrow> string" where
  "typeof Undefined = ''undefined''"
| "typeof Null = ''object''"
| "typeof (Boolean b) = ''boolean''"
| "typeof (Number n) = ''number''"
| "typeof (String s) = ''string''"
| "typeof (Object ps) = ''object''"

section \<open>String operations\<close>

subsection \<open>The regular expression \<open>/^line \<bslash>d+:/iu\<close>\<close>

text \<open>
  A pattern is a sequence of items: one code unit of a class, or one or more of a class
  (greedy, giving code units back when the rest of the pattern does not match).
  \<open>match_here\<close> matches the pattern at the start of the input and returns what follows
  the match.
\<close>

datatype regex_item = One "code_unit \<Rightarrow> bool" | OneOrMore "code_unit \<Rightarrow> bool"

fun match_here :: "regex_item list \<Rightarrow> js_string \<Rightarrow> js_string option" where
  "match_here [] s = Some s"
| "match_here (One p # re) [] = None"
| "match_here (One p # re) (c # s) = (if p c then match_here re s else None)"
| "match_here (OneOrMore p # re) [] = None"
| "match_here (OneOrMore p # re) (c # s) =
     (if p c
      then (case match_here (OneOrMore p # re) s of
              Some rest \<Rightarrow> Some rest
            | None \<Rightarrow> match_here re s)
      else None)"

definition any_of :: "string \<Rightarrow> code_unit \<Rightarrow> bool" where
  "any_of cs c \<longleftrightarrow> c \<in> set (js cs)"

definition is_digit :: "code_unit \<Rightarrow> bool" where
  "is_digit c \<longleftrightarrow> 0x30 \<le> c \<and> c \<le> 0x39"

text \<open>
  \<open>line \<bslash>d+:\<close> under the flags \<open>i\<close> and \<open>u\<close>: each letter matches in either case
  (no other code point folds to \<open>l\<close>, \<open>i\<close>, \<open>n\<close> or \<open>e\<close>), \<open>\<bslash>d\<close> is \<open>0\<close> to \<open>9\<close>.
\<close>

definition line_number_pattern :: "regex_item list" where
  "line_number_pattern =
     [One (any_of ''lL''), One (any_of ''iI''), One (any_of ''nN''), One (any_of ''eE''),
      One (any_of '' ''), OneOrMore is_digit, One (any_of '':'')]"

text \<open>
  \<open>s.replace(/^.../, replacement)\<close>: the pattern is anchored at the start and has no
  \<open>g\<close> flag, so at most the match at index 0 is replaced.
\<close>

definition replace_anchored :: "regex_item list \<Rightarrow> js_string \<Rightarrow> js_string \<Rightarrow> js_string" where
  "replace_anchored re replacement s =
     (case match_here re s of Some rest \<Rightarrow> replacement @ rest | None \<Rightarrow> s)"

subsection \<open>\<open>String.prototype.trim\<close>\<close>

text \<open>White space and line terminators of ECMAScript.\<close>

definition is_white_space :: "code_unit \<Rightarrow> bool" where
  "is_white_space c \<longleftrightarrow>
     c \<in> set [0x09, 0x0A, 0x0B, 0x0C, 0x0D, 0x20, 0xA0, 0x1680, 0x2028, 0x2029,
              0x202F, 0x205F, 0x3000, 0xFEFF]
     \<or> (0x2000 \<le> c \<and> c \<le> 0x200A)"

definition trim :: "js_string \<Rightarrow> js_string" where
  "trim s = rev (dropWhile is_white_space (rev (dropWhile is_white_space s)))"

subsection \<open>Decimal numerals\<close>

text \<open>\<open>`${i}`\<close> for an array index \<open>i\<close>.\<close>

fun ToString_index :: "nat \<Rightarrow> js_string" where
  "ToString_index n =
     (if n < 10 then [of_nat (48 + n)]
      else ToString_index (n div 10) @ [of_nat (48 + n mod 10)])"

declare ToString_index.simps [simp del]

subsection \<open>\<open>path.join\<close>\<close>

text \<open>
  \<open>path.join\<close> belongs to the Node.js runtime, not to this repository. The model is
  the POSIX variant as Node documents it: the non-empty arguments are joined with
  \<open>/\<close> and the result is normalised, which drops empty and \<open>.\<close> segments, resolves
  \<open>..\<close> segments, keeps a trailing separator and returns \<open>.\<close> for an empty path.
\<close>

fun split_on :: "'a \<Rightarrow> 'a list \<Rightarrow> 'a list list" where
  "split_on sep [] = [[]]"
| "split_on sep (c # s) =
     (if c = sep then [] # split_on sep s
      else (case split_on sep s of
              seg # segs \<Rightarrow> (c # seg) # segs
            | [] \<Rightarrow> [[c]]))"

fun join_with :: "'a list \<Rightarrow> 'a list list \<Rightarrow> 'a list" where
  "join_with sep [] = []"
| "join_with sep [seg] = seg"
| "join_with sep (seg # seg' # segs) = seg @ sep @ join_with sep (seg' # segs)"

fun normalizeSegments :: "bool \<Rightarrow> js_string list \<Rightarrow> js_string list \<Rightarrow> js_string list" where
  "normalizeSegments allowAboveRoot res [] = res"
| "normalizeSegments allowAboveRoot res (seg # segs) =
     (if seg = [] \<or> seg = js ''.'' then normalizeSegments allowAboveRoot res segs
      else if seg = js ''..'' then
        (if res \<noteq> [] \<and> last res \<noteq> js ''..''
         then normalizeSegments allowAboveRoot (butlast res) segs
         else if allowAboveRoot
         then normalizeSegments allowAboveRoot (res @ [js ''..'']) segs
         else normalizeSegments allowAboveRoot res segs)
      else normalizeSegments allowAboveRoot (res @ [seg]) segs)"

definition path_normalize :: "js_string \<Rightarrow> js_string" where
  "path_normalize p =
     (if p = [] then js ''.''
      else
        let isAbsolute = (hd p = of_char CHR ''/'');
            trailingSeparator = (last p = of_char CHR ''/'');
            res = join_with (js ''/'')
                    (normalizeSegments (\<not> isAbsolute) [] (split_on (of_char CHR ''/'') p))
        in if res = []
           then (if isAbsolute then js ''/''
                 else if trailingSeparator then js ''./'' else js ''.'')
           else (if isAbsolute then js ''/'' else []) @ res
                @ (if trailingSeparator then js ''/'' else []))"

definition path_join :: "js_string \<Rightarrow> js_string \<Rightarrow> js_string" where
  "path_join a b =
     (let joined = (if a = [] then None else Some a);
          joined = (if b = [] then joined
                    else (case joined of None \<Rightarrow> Some b | Some j \<Rightarrow> Some (j @ js ''/'' @ b)))
      in case joined of None \<Rightarrow> js ''.'' | Some j \<Rightarrow> path_normalize j)"

section \<open>Objects and the heap\<close>

text \<open>
  The body of a file is a string or a reference to a \<open>Uint8Array\<close>. Objects that can
  be shared and mutated live in a heap: byte arrays and \<open>VFile\<close> instances by address,
  below the allocation pointer \<open>next_addr\<close>; every other object a caller or a
  processor may hold (message arrays, configuration) is in the extension of the heap
  record, which this module never reads. The class \<open>VFile\<close> is declared in
  \<open>lib/linter/vfile.js\<close>; its fields here are those this module reads and the spec lists.
\<close>

datatype body = Text js_string | ByteSeq addr

record VFile =
  path :: js_string
  physicalPath :: js_string
  body :: body
  bom :: bool

record heap =
  uint8arrays :: "addr \<Rightarrow> byte list"
  vfiles :: "addr \<Rightarrow> VFile"
  next_addr :: addr

text \<open>\<open>new Uint8Array(...)\<close> with the given initial contents.\<close>

definition new_Uint8Array :: "byte list \<Rightarrow> 'z heap_scheme \<Rightarrow> addr \<times> 'z heap_scheme" where
  "new_Uint8Array bs h =
     (next_addr h,
      h\<lparr>uint8arrays := (uint8arrays h)(next_addr h := bs), next_addr := Suc (next_addr h)\<rparr>)"

text \<open>
  \<open>target.set(source, offset)\<close>: copies the bytes of \<open>source\<close> into \<open>target\<close> from
  \<open>offset\<close> on; a \<open>RangeError\<close> when they do not fit.
\<close>

definition Uint8Array_set ::
  "addr \<Rightarrow> byte list \<Rightarrow> nat \<Rightarrow> 'z heap_scheme \<Rightarrow> 'z heap_scheme completion" where
  "Uint8Array_set target source offset h =
     (let t = uint8arrays h target in
      if offset + length source \<le> length t
      then Normal (h\<lparr>uint8arrays := (uint8arrays h)
             (target := take offset t @ source @ drop (offset + length source) t)\<rparr>)
      else Throw (RangeError ''offset is out of bounds''))"

text \<open>
  Modelled from the spec: the constructor of \<open>VFile\<close> (\<open>lib/linter/vfile.js\<close>, not among
  the sources). \<open>new VFile(path, body, { physicalPath })\<close> allocates a file with the
  given path, body and physical path; the body is stored as given, so no byte-order
  mark was stripped from it.
\<close>

definition new_VFile ::
  "js_string \<Rightarrow> body \<Rightarrow> js_string \<Rightarrow> 'z heap_scheme \<Rightarrow> addr \<times> 'z heap_scheme" where
  "new_VFile p b phys h =
     (next_addr h,
      h\<lparr>vfiles := (vfiles h)
           (next_addr h := \<lparr>path = p, physicalPath = phys, body = b, bom = False\<rparr>),
        next_addr := Suc (next_addr h)\<rparr>)"

section \<open>The processor service\<close>

subsection \<open>\<open>getBodyWithBOM\<close>\<close>

definition getBodyWithBOM :: "addr \<Rightarrow> 'z heap_scheme \<Rightarrow> body completion \<times> 'z heap_scheme" where
  "getBodyWithBOM file h =
     (if \<not> bom (vfiles h file) then (Normal (body (vfiles h file)), h)
      else
        (case body (vfiles h file) of
           Text s \<Rightarrow> (Normal (Text (0xFEFF # s)), h)
         | ByteSeq a \<Rightarrow>
             (let (bomArray, h1) = new_Uint8Array [0xEF, 0xBB, 0xBF] h;
                  (bodyWithBOM, h2) =
                     new_Uint8Array
                       (replicate (length (uint8arrays h1 bomArray) + length (uint8arrays h1 a)) 0)
                       h1
              in case Uint8Array_set bodyWithBOM (uint8arrays h2 bomArray) 0 h2 of
                   Throw e \<Rightarrow> (Throw e, h2)
                 | Normal h3 \<Rightarrow>
                     (case Uint8Array_set bodyWithBOM (uint8arrays h3 a)
                             (length (uint8arrays h3 bomArray)) h3 of
                        Throw e \<Rightarrow> (Throw e, h3)
                      | Normal h4 \<Rightarrow> (Normal (ByteSeq bodyWithBOM), h4)))))"

subsection \<open>Processors, blocks and results\<close>

text \<open>
  A block is a string (legacy) or \<open>{ text, filename }\<close>. What \<open>preprocess\<close> returns is an
  array of blocks, a thenable (an object whose \<open>then\<close> is a function, such as a
  promise), or some value that is neither.
\<close>

datatype block =
    StringBlock js_string
  | StructuredBlock (block_text: js_string) (block_filename: js_string)

datatype preprocess_value =
    BlockArray "block list"
  | Thenable
  | Plain js_value

text \<open>
  A processor's operations are functions of the caller: they may throw, and they may
  change the heap. \<open>postprocess\<close> is optional. Messages are opaque to this module.
\<close>

record ('m, 'z) Processor =
  preprocess ::
    "body \<Rightarrow> js_string \<Rightarrow> 'z heap_scheme \<Rightarrow> preprocess_value completion \<times> 'z heap_scheme"
  postprocess ::
    "('m \<Rightarrow> js_string \<Rightarrow> 'z heap_scheme \<Rightarrow> 'm completion \<times> 'z heap_scheme) option"

record ('m, 'z) config =
  processor :: "('m, 'z) Processor"

record LintMessage =
  ruleId :: js_value
  fatal :: bool
  severity :: nat
  message :: js_string
  line :: js_value
  column :: js_value
  nodeType :: js_value

text \<open>An element of \<open>files\<close>: a legacy string, or a reference to a new \<open>VFile\<close>.\<close>

datatype derived = StringUnit js_string | VFileRef addr

record preprocess_result =
  ok :: bool
  files :: "derived list option"
  errors :: "LintMessage list option"

subsection \<open>\<open>preprocessSync\<close>\<close>

text \<open>
  The \<open>catch\<close> clause. \<open>ex.message.replace(...)\<close> itself throws a \<open>TypeError\<close> when the
  thrown value is \<open>undefined\<close> or \<open>null\<close>, or when its \<open>message\<close> is not a string.
\<close>

definition preprocessing_failure :: "js_value \<Rightarrow> preprocess_result completion" where
  "preprocessing_failure ex =
     (case Get ex ''message'' of
        Throw e \<Rightarrow> Throw e
      | Normal m \<Rightarrow>
          (case m of
             String s \<Rightarrow>
               (let msg = js ''Preprocessing error: ''
                            @ trim (replace_anchored line_number_pattern (js '''') s)
                in case Get ex ''lineNumber'' of
                     Throw e \<Rightarrow> Throw e
                   | Normal l \<Rightarrow>
                       (case Get ex ''column'' of
                          Throw e \<Rightarrow> Throw e
                        | Normal c \<Rightarrow>
                            Normal \<lparr>ok = False, files = None,
                                    errors = Some [\<lparr>ruleId = Null, fatal = True, severity = 2,
                                                    message = msg, line = l, column = c,
                                                    nodeType = Null\<rparr>]\<rparr>))
           | Undefined \<Rightarrow> Throw (TypeError ''Cannot read properties of undefined'')
           | Null \<Rightarrow> Throw (TypeError ''Cannot read properties of null'')
           | _ \<Rightarrow> Throw (TypeError ''ex.message.replace is not a function'')))"

text \<open>\<open>typeof blocks.then\<close>\<close>

fun typeof_then :: "preprocess_value \<Rightarrow> string completion" where
  "typeof_then (BlockArray bs) = Normal ''undefined''"
| "typeof_then Thenable = Normal ''function''"
| "typeof_then (Plain v) =
     (case Get v ''then'' of Throw e \<Rightarrow> Throw e | Normal t \<Rightarrow> Normal (typeof t))"

text \<open>
  \<open>blocks.map((block, i) => ...)\<close> from index \<open>i\<close> on: a string is returned as it is;
  any other block becomes a new \<open>VFile\<close>. The callback reads \<open>file.path\<close> and
  \<open>file.physicalPath\<close> at every block.
\<close>

fun map_blocks ::
  "addr \<Rightarrow> nat \<Rightarrow> block list \<Rightarrow> 'z heap_scheme \<Rightarrow> derived list \<times> 'z heap_scheme" where
  "map_blocks file i [] h = ([], h)"
| "map_blocks file i (StringBlock s # blocks) h =
     (let (rest, h') = map_blocks file (Suc i) blocks h
      in (StringUnit s # rest, h'))"
| "map_blocks file i (StructuredBlock t name # blocks) h =
     (let filePath = path_join (path (vfiles h file)) (ToString_index i @ js ''_'' @ name);
          (v, h1) = new_VFile filePath (Text t) (physicalPath (vfiles h file)) h;
          (rest, h') = map_blocks file (Suc i) blocks h1
      in (VFileRef v # rest, h'))"

definition preprocessSync ::
  "addr \<Rightarrow> ('m, 'z) config \<Rightarrow> 'z heap_scheme \<Rightarrow> preprocess_result completion \<times> 'z heap_scheme"
  where
  "preprocessSync file cfg h =
     (let proc = processor cfg in
      case (case getBodyWithBOM file h of
              (Throw ex, h1) \<Rightarrow> (Throw ex, h1)
            | (Normal b, h1) \<Rightarrow> preprocess proc b (path (vfiles h1 file)) h1) of
        (Throw ex, h2) \<Rightarrow> (preprocessing_failure ex, h2)
      | (Normal blocks, h2) \<Rightarrow>
          (case typeof_then blocks of
             Throw e \<Rightarrow> (Throw e, h2)
           | Normal t \<Rightarrow>
               if t = ''function''
               then (Throw (Error ''Unsupported: Preprocessor returned a promise.''), h2)
               else
                 (case blocks of
                    BlockArray bs \<Rightarrow>
                      (let (fs, h3) = map_blocks file 0 bs h2
                       in (Normal \<lparr>ok = True, files = Some fs, errors = None\<rparr>, h3))
                  | _ \<Rightarrow> (Throw (TypeError ''blocks.map is not a function''), h2))))"

subsection \<open>\<open>postprocessSync\<close>\<close>

definition postprocessSync ::
  "addr \<Rightarrow> 'm \<Rightarrow> ('m, 'z) config \<Rightarrow> 'z heap_scheme \<Rightarrow> 'm completion \<times> 'z heap_scheme" where
  "postprocessSync file messages cfg h =
     (let proc = processor cfg in
      case postprocess proc of
        Some post \<Rightarrow> post messages (path (vfiles h file)) h
      | None \<Rightarrow> (Normal messages, h))"

section \<open>Notions used in the statements\<close>

text \<open>
  \<open>preserves h h'\<close>: every object allocated in \<open>h\<close> (byte array or file) is the same in
  \<open>h'\<close>, nothing was deallocated, and the objects outside the two stores are the same.
\<close>

definition preserves :: "'z heap_scheme \<Rightarrow> 'z heap_scheme \<Rightarrow> bool" where
  "preserves h h' \<longleftrightarrow>
     next_addr h \<le> next_addr h' \<and> heap.more h' = heap.more h \<and>
     (\<forall>a<next_addr h. uint8arrays h' a = uint8arrays h a \<and> vfiles h' a = vfiles h a)"

text \<open>
  \<open>derived_from file i blk h d h'\<close>: \<open>d\<close> is what the block \<open>blk\<close> at position \<open>i\<close> maps
  to, for the parent \<open>file\<close> as it is in \<open>h\<close>: the string itself, or a file (in \<open>h'\<close>) with
  the joined path, the parent's physical path and the block's text.
\<close>

definition derived_from ::
  "addr \<Rightarrow> nat \<Rightarrow> block \<Rightarrow> 'z heap_scheme \<Rightarrow> derived \<Rightarrow> 'z heap_scheme \<Rightarrow> bool" where
  "derived_from file i blk h d h' =
     (case blk of
        StringBlock s \<Rightarrow> d = StringUnit s
      | StructuredBlock t name \<Rightarrow>
          (case d of
             StringUnit s \<Rightarrow> False
           | VFileRef v \<Rightarrow>
               vfiles h' v =
                 \<lparr>path = path_join (path (vfiles h file)) (ToString_index i @ js ''_'' @ name),
                  physicalPath = physicalPath (vfiles h file),
                  body = Text t, bom = False\<rparr>))"

text \<open>
  The spec's words for the message: a leading \<open>line <digits>:\<close>, in any case, is
  stripped. \<open>line_number_prefix m rest\<close>: \<open>m\<close> is such a prefix followed by \<open>rest\<close>.
\<close>

definition ascii_lower :: "code_unit \<Rightarrow> code_unit" where
  "ascii_lower c = (if 0x41 \<le> c \<and> c \<le> 0x5A then c + 0x20 else c)"

definition line_number_prefix :: "js_string \<Rightarrow> js_string \<Rightarrow> bool" where
  "line_number_prefix m rest \<longleftrightarrow>
     (\<exists>w ds. m = w @ ds @ js '':'' @ rest \<and> map ascii_lower w = js ''line ''
            \<and> ds \<noteq> [] \<and> list_all is_digit ds)"

text \<open>
  \<open>trimmed s t\<close>: \<open>t\<close> is \<open>s\<close> without the white space around it, that is, \<open>s\<close> is \<open>t\<close>
  between two runs of white space, and \<open>t\<close> neither starts nor ends with white space.
\<close>

definition trimmed :: "js_string \<Rightarrow> js_string \<Rightarrow> bool" where
  "trimmed s t \<longleftrightarrow>
     (\<exists>l r. s = l @ t @ r \<and> list_all is_white_space l \<and> list_all is_white_space r
            \<and> (t = [] \<or> (\<not> is_white_space (hd t) \<and> \<not> is_white_space (last t))))"

text \<open>
  \<open>decimal_numeral n s\<close>: \<open>s\<close> is the decimal numeral of \<open>n\<close>: digits only, no leading
  zero but for \<open>0\<close> itself, and of value \<open>n\<close>.
\<close>

definition digit_value :: "code_unit \<Rightarrow> nat" where
  "digit_value c = unat c - 48"

definition decimal_value :: "js_string \<Rightarrow> nat" where
  "decimal_value s = foldl (\<lambda>acc c. 10 * acc + digit_value c) 0 s"

definition decimal_numeral :: "nat \<Rightarrow> js_string \<Rightarrow> bool" where
  "decimal_numeral n s \<longleftrightarrow>
     s \<noteq> [] \<and> list_all is_digit s \<and> (s = [0x30] \<or> hd s \<noteq> 0x30) \<and> decimal_value s = n"

text \<open>
  Paths on which joining is plain concatenation: an optional leading \<open>/\<close>, then
  segments separated by single \<open>/\<close>, each non-empty and neither \<open>.\<close> nor \<open>..\<close>.
\<close>

definition plain_segment :: "js_string \<Rightarrow> bool" where
  "plain_segment seg \<longleftrightarrow> seg \<noteq> [] \<and> seg \<noteq> js ''.'' \<and> seg \<noteq> js ''..''"

definition plain_relative :: "js_string \<Rightarrow> bool" where
  "plain_relative p \<longleftrightarrow> list_all plain_segment (split_on (of_char CHR ''/'') p)"

definition plain_path :: "js_string \<Rightarrow> bool" where
  "plain_path p \<longleftrightarrow>
     (case p of
        [] \<Rightarrow> False
      | c # cs \<Rightarrow> plain_relative (if c = of_char CHR ''/'' then cs else p))"

section \<open>Example inputs\<close>

definition no_file :: VFile where
  "no_file = \<lparr>path = [], physicalPath = [], body = Text [], bom = False\<rparr>"

definition foo_md :: VFile where
  "foo_md = \<lparr>path = js ''/a/foo.md'', physicalPath = js ''/a/foo.md'',
             body = Text (js ''# Title''), bom = False\<rparr>"

text \<open>File 0 is \<open>/a/foo.md\<close> with a textual body; \<open>flag\<close> is its \<open>bom\<close>.\<close>

definition text_heap :: "bool \<Rightarrow> heap" where
  "text_heap flag =
     \<lparr>uint8arrays = (\<lambda>a. []), vfiles = (\<lambda>a. no_file)(0 := foo_md\<lparr>bom := flag\<rparr>),
      next_addr = 1\<rparr>"

text \<open>File 0 is \<open>/a/foo.md\<close> with the bytes of \<open>hi\<close> (array 1) as its body.\<close>

definition bytes_heap :: "bool \<Rightarrow> heap" where
  "bytes_heap flag =
     \<lparr>uint8arrays = (\<lambda>a. [])(1 := [0x68, 0x69]),
      vfiles = (\<lambda>a. no_file)(0 := foo_md\<lparr>body := ByteSeq 1, bom := flag\<rparr>),
      next_addr = 2\<rparr>"

text \<open>File 0 has the relative path \<open>./foo.md\<close>.\<close>

definition relative_heap :: heap where
  "relative_heap =
     \<lparr>uint8arrays = (\<lambda>a. []),
      vfiles = (\<lambda>a. no_file)(0 := foo_md\<lparr>path := js ''./foo.md''\<rparr>),
      next_addr = 1\<rparr>"

text \<open>Returns the two structured blocks \<open>x.js\<close> and \<open>y.js\<close>; has no \<open>postprocess\<close>.\<close>

definition markdown_processor :: "(LintMessage list list, unit) Processor" where
  "markdown_processor =
     \<lparr>preprocess = (\<lambda>b p h.
        (Normal (BlockArray [StructuredBlock (js ''a'') (js ''x.js''),
                             StructuredBlock (js ''b'') (js ''y.js'')]), h)),
      postprocess = None\<rparr>"

text \<open>Returns one legacy string block; its \<open>postprocess\<close> flattens the messages.\<close>

definition legacy_processor :: "(LintMessage list list, unit) Processor" where
  "legacy_processor =
     \<lparr>preprocess = (\<lambda>b p h. (Normal (BlockArray [StringBlock (js ''plain text'')]), h)),
      postprocess = Some (\<lambda>messages p h. (Normal [concat messages], h))\<rparr>"

text \<open>Throws an error with a message and a line number, without a column.\<close>

definition failing_processor :: "(LintMessage list list, unit) Processor" where
  "failing_processor =
     \<lparr>preprocess = (\<lambda>b p h.
        (Throw (Object [(''message'', String (js ''line 4: bad token'')),
                        (''lineNumber'', Number 4)]), h)),
      postprocess = None\<rparr>"

text \<open>Returns twelve structured blocks, all named \<open>x.js\<close>.\<close>

definition twelve_blocks_processor :: "(LintMessage list list, unit) Processor" where
  "twelve_blocks_processor =
     \<lparr>preprocess = (\<lambda>b p h.
        (Normal (BlockArray (replicate 12 (StructuredBlock (js ''a'') (js ''x.js'')))), h)),
      postprocess = None\<rparr>"

text \<open>Every white space and line terminator code unit of ECMAScript.\<close>

definition all_white_space :: js_string where
  "all_white_space =
     [0x09, 0x0A, 0x0B, 0x0C, 0x0D, 0x20, 0xA0, 0x1680, 0x2000, 0x2001, 0x2002, 0x2003,
      0x2004, 0x2005, 0x2006, 0x2007, 0x2008, 0x2009, 0x200A, 0x2028, 0x2029, 0x202F,
      0x205F, 0x3000, 0xFEFF]"

text \<open>Throws the given value.\<close>

definition throwing_processor :: "js_value \<Rightarrow> (LintMessage list list, unit) Processor" where
  "throwing_processor ex = \<lparr>preprocess = (\<lambda>b p h. (Throw ex, h)), postprocess = None\<rparr>"

definition async_processor :: "(LintMessage list list, unit) Processor" where
  "async_processor = \<lparr>preprocess = (\<lambda>b p h. (Normal Thenable, h)), postprocess = None\<rparr>"

text \<open>Returns the given value, which is no array and no thenable.\<close>

definition plain_processor :: "js_value \<Rightarrow> (LintMessage list list, unit) Processor" where
  "plain_processor v = \<lparr>preprocess = (\<lambda>b p h. (Normal (Plain v), h)), postprocess = None\<rparr>"

text \<open>A diagnostic, for the message matrices of the examples.\<close>

definition sample_message :: LintMessage where
  "sample_message =
     \<lparr>ruleId = String (js ''semi''), fatal = False, severity = 1,
      message = js ''Missing semicolon.'', line = Number 1, column = Number 3,
      nodeType = Null\<rparr>"

section \<open>Verification\<close>

subsection \<open>The BOM reconstructor\<close>

lemma getBodyWithBOM_bytes:
  assumes "bom (vfiles h file)" and "body (vfiles h file) = ByteSeq a" and "a < next_addr h"
  shows "getBodyWithBOM file h =
           (Normal (ByteSeq (Suc (next_addr h))),
            h\<lparr>uint8arrays := (uint8arrays h)
                 (next_addr h := [0xEF, 0xBB, 0xBF],
                  Suc (next_addr h) := [0xEF, 0xBB, 0xBF] @ uint8arrays h a),
              next_addr := Suc (Suc (next_addr h))\<rparr>)"
  using assms
  by (simp add: getBodyWithBOM_def new_Uint8Array_def Uint8Array_set_def Let_def numeral_3_eq_3)

text \<open>
  On a heap where the body of the file, when it is a byte array, is allocated, the
  function returns a body: neither \<open>set\<close> raises its \<open>RangeError\<close>.
\<close>

lemma getBodyWithBOM_never_fails:
  assumes "\<And>a. body (vfiles h file) = ByteSeq a \<Longrightarrow> a < next_addr h"
  shows "\<exists>b h'. getBodyWithBOM file h = (Normal b, h')"
proof (cases "bom (vfiles h file)")
  case False
  then show ?thesis by (simp add: getBodyWithBOM_def)
next
  case True
  show ?thesis
  proof (cases "body (vfiles h file)")
    case (Text s)
    with True show ?thesis by (simp add: getBodyWithBOM_def)
  next
    case (ByteSeq a)
    with True assms show ?thesis by (simp add: getBodyWithBOM_bytes)
  qed
qed

text \<open>
  Claim C5. For a file whose \<open>bom\<close> flag is false, \<open>getBodyWithBOM\<close> returns the body of
  the file as it is, a string or the reference to the same byte array, and leaves the
  heap as it was.
\<close>

theorem getBodyWithBOM_identity:
  "\<not> bom (vfiles h file) \<Longrightarrow> getBodyWithBOM file h = (Normal (body (vfiles h file)), h)"
  by (simp add: getBodyWithBOM_def)

theorem getBodyWithBOM_identity_witness:
  "\<not> bom (vfiles (text_heap False) 0)
   \<and> getBodyWithBOM 0 (text_heap False) = (Normal (Text (js ''# Title'')), text_heap False)
   \<and> \<not> bom (vfiles (bytes_heap False) 0)
   \<and> getBodyWithBOM 0 (bytes_heap False) = (Normal (ByteSeq 1), bytes_heap False)"
  using getBodyWithBOM_identity [of "text_heap False" 0]
        getBodyWithBOM_identity [of "bytes_heap False" 0]
  by (simp add: text_heap_def bytes_heap_def foo_md_def)

text \<open>
  Claim C6. For a file whose \<open>bom\<close> flag is true: a textual body is returned with the
  one code unit U+FEFF in front, so that dropping the first code unit gives the body
  back; a byte body (an allocated array of \<open>n\<close> bytes) gives a new array of \<open>3 + n\<close>
  bytes, the bytes EF BB BF followed by the bytes of the body, and the array of the
  body keeps its contents.
\<close>

theorem getBodyWithBOM_prepends_bom:
  assumes "bom (vfiles h file)"
  shows "(\<forall>s. body (vfiles h file) = Text s \<longrightarrow>
            (\<exists>s'. getBodyWithBOM file h = (Normal (Text s'), h)
                  \<and> s' = 0xFEFF # s \<and> hd s' = 0xFEFF \<and> tl s' = s))
       \<and> (\<forall>a. body (vfiles h file) = ByteSeq a \<and> a < next_addr h \<longrightarrow>
            (\<exists>r h'. getBodyWithBOM file h = (Normal (ByteSeq r), h')
                  \<and> next_addr h \<le> r
                  \<and> length (uint8arrays h' r) = 3 + length (uint8arrays h a)
                  \<and> take 3 (uint8arrays h' r) = [0xEF, 0xBB, 0xBF]
                  \<and> drop 3 (uint8arrays h' r) = uint8arrays h a
                  \<and> uint8arrays h' a = uint8arrays h a))"
proof (intro conjI allI impI)
  fix s assume "body (vfiles h file) = Text s"
  with assms show "\<exists>s'. getBodyWithBOM file h = (Normal (Text s'), h)
                  \<and> s' = 0xFEFF # s \<and> hd s' = 0xFEFF \<and> tl s' = s"
    by (simp add: getBodyWithBOM_def)
next
  fix a assume a: "body (vfiles h file) = ByteSeq a \<and> a < next_addr h"
  with assms have "getBodyWithBOM file h =
           (Normal (ByteSeq (Suc (next_addr h))),
            h\<lparr>uint8arrays := (uint8arrays h)
                 (next_addr h := [0xEF, 0xBB, 0xBF],
                  Suc (next_addr h) := [0xEF, 0xBB, 0xBF] @ uint8arrays h a),
              next_addr := Suc (Suc (next_addr h))\<rparr>)"
    by (simp add: getBodyWithBOM_bytes)
  with a show "\<exists>r h'. getBodyWithBOM file h = (Normal (ByteSeq r), h')
                  \<and> next_addr h \<le> r
                  \<and> length (uint8arrays h' r) = 3 + length (uint8arrays h a)
                  \<and> take 3 (uint8arrays h' r) = [0xEF, 0xBB, 0xBF]
                  \<and> drop 3 (uint8arrays h' r) = uint8arrays h a
                  \<and> uint8arrays h' a = uint8arrays h a"
    by simp
qed

theorem getBodyWithBOM_prepends_bom_witness:
  "bom (vfiles (text_heap True) 0)
   \<and> getBodyWithBOM 0 (text_heap True) = (Normal (Text (0xFEFF # js ''# Title'')), text_heap True)
   \<and> bom (vfiles (bytes_heap True) 0)
   \<and> (\<exists>r h'. getBodyWithBOM 0 (bytes_heap True) = (Normal (ByteSeq r), h')
         \<and> 2 \<le> r \<and> uint8arrays h' r = [0xEF, 0xBB, 0xBF, 0x68, 0x69]
         \<and> uint8arrays h' 1 = [0x68, 0x69])"
proof -
  have t: "bom (vfiles (text_heap True) 0)"
    and tb: "body (vfiles (text_heap True) 0) = Text (js ''# Title'')"
    by (simp_all add: text_heap_def foo_md_def)
  have b: "bom (vfiles (bytes_heap True) 0)"
    and bb: "body (vfiles (bytes_heap True) 0) = ByteSeq 1 \<and> 1 < next_addr (bytes_heap True)"
    and arr: "uint8arrays (bytes_heap True) 1 = [0x68, 0x69]"
    and lim: "next_addr (bytes_heap True) = 2"
    by (simp_all add: bytes_heap_def foo_md_def)
  from getBodyWithBOM_prepends_bom [OF t] tb
  have tr: "getBodyWithBOM 0 (text_heap True)
                = (Normal (Text (0xFEFF # js ''# Title'')), text_heap True)"
    by auto
  from getBodyWithBOM_prepends_bom [OF b] bb
  obtain r h' where r: "getBodyWithBOM 0 (bytes_heap True) = (Normal (ByteSeq r), h')"
    "next_addr (bytes_heap True) \<le> r"
    "take 3 (uint8arrays h' r) = [0xEF, 0xBB, 0xBF]"
    "drop 3 (uint8arrays h' r) = uint8arrays (bytes_heap True) 1"
    "uint8arrays h' 1 = uint8arrays (bytes_heap True) 1"
    by blast
  have "uint8arrays h' r = take 3 (uint8arrays h' r) @ drop 3 (uint8arrays h' r)"
    by simp
  with r arr have "uint8arrays h' r = [0xEF, 0xBB, 0xBF, 0x68, 0x69]" by simp
  with r arr lim t b tr show ?thesis by auto
qed


subsection \<open>Allocation preserves what is allocated\<close>

lemma preserves_refl: "preserves h h"
  by (simp add: preserves_def)

lemma preserves_trans: "preserves h h' \<Longrightarrow> preserves h' h'' \<Longrightarrow> preserves h h''"
  by (auto simp: preserves_def)

lemma new_VFile_preserves: "preserves h (snd (new_VFile p b phys h))"
  by (simp add: preserves_def new_VFile_def)

lemma getBodyWithBOM_preserves: "preserves h (snd (getBodyWithBOM file h))"
  by (simp add: getBodyWithBOM_def preserves_def new_Uint8Array_def Uint8Array_set_def
      Let_def split: body.splits)

subsection \<open>The mapping of the blocks\<close>

lemma map_blocks_String:
  "map_blocks file i (StringBlock s # bs) h =
     (StringUnit s # fst (map_blocks file (Suc i) bs h), snd (map_blocks file (Suc i) bs h))"
  by (simp add: case_prod_beta)

lemma map_blocks_Structured:
  "map_blocks file i (StructuredBlock t name # bs) h =
     (let h1 = snd (new_VFile (path_join (path (vfiles h file)) (ToString_index i @ js ''_'' @ name))
                      (Text t) (physicalPath (vfiles h file)) h)
      in (VFileRef (next_addr h) # fst (map_blocks file (Suc i) bs h1),
          snd (map_blocks file (Suc i) bs h1)))"
  by (simp add: case_prod_beta Let_def new_VFile_def)

lemma map_blocks_preserves: "preserves h (snd (map_blocks file i bs h))"
proof (induction bs arbitrary: i h)
  case Nil
  show ?case by (simp add: preserves_refl)
next
  case (Cons blk bs)
  show ?case
  proof (cases blk)
    case (StringBlock s)
    with Cons.IH [of h "Suc i"] show ?thesis
      by (simp add: map_blocks_String del: map_blocks.simps)
  next
    case (StructuredBlock t name)
    let ?p = "path_join (path (vfiles h file)) (ToString_index i @ js ''_'' @ name)"
    let ?h1 = "snd (new_VFile ?p (Text t) (physicalPath (vfiles h file)) h)"
    have "preserves h ?h1" by (rule new_VFile_preserves)
    moreover have "preserves ?h1 (snd (map_blocks file (Suc i) bs ?h1))" by (rule Cons.IH)
    ultimately have "preserves h (snd (map_blocks file (Suc i) bs ?h1))"
      by (rule preserves_trans)
    with StructuredBlock show ?thesis
      by (simp add: map_blocks_Structured Let_def del: map_blocks.simps)
  qed
qed

lemma map_blocks_length: "length (fst (map_blocks file i bs h)) = length bs"
proof (induction bs arbitrary: i h)
  case Nil
  show ?case by simp
next
  case (Cons blk bs)
  then show ?case
    by (cases blk)
       (simp_all add: map_blocks_String map_blocks_Structured Let_def del: map_blocks.simps)
qed

lemma map_blocks_string_nth:
  "k < length bs \<Longrightarrow> bs ! k = StringBlock s \<Longrightarrow>
   fst (map_blocks file i bs h) ! k = StringUnit s"
proof (induction bs arbitrary: i h k)
  case Nil
  then show ?case by simp
next
  case (Cons blk bs)
  show ?case
  proof (cases k)
    case 0
    with Cons.prems show ?thesis by (simp add: map_blocks_String del: map_blocks.simps)
  next
    case (Suc k')
    with Cons.prems have k': "k' < length bs" "bs ! k' = StringBlock s" by simp_all
    show ?thesis
    proof (cases blk)
      case (StringBlock s')
      with Suc Cons.IH [OF k', of "Suc i" h] show ?thesis
        by (simp add: map_blocks_String del: map_blocks.simps)
    next
      case (StructuredBlock t name)
      with Suc Cons.IH [OF k', of "Suc i"] show ?thesis
        by (simp add: map_blocks_Structured Let_def del: map_blocks.simps)
    qed
  qed
qed

lemma derived_from_same:
  "vfiles h1 file = vfiles h file \<Longrightarrow>
   derived_from file i blk h1 d h' = derived_from file i blk h d h'"
  by (simp add: derived_from_def split: block.splits derived.splits)

lemma map_blocks_nth:
  "file < next_addr h \<Longrightarrow> k < length bs \<Longrightarrow>
   derived_from file (i + k) (bs ! k) h (fst (map_blocks file i bs h) ! k)
     (snd (map_blocks file i bs h))"
proof (induction bs arbitrary: i h k)
  case Nil
  then show ?case by simp
next
  case (Cons blk bs)
  show ?case
  proof (cases blk)
    case (StringBlock s)
    show ?thesis
    proof (cases k)
      case 0
      with StringBlock show ?thesis
        by (simp add: derived_from_def map_blocks_String del: map_blocks.simps)
    next
      case (Suc k')
      with Cons.prems have "k' < length bs" by simp
      from Cons.IH [OF Cons.prems(1) this, of "Suc i"] StringBlock Suc
      show ?thesis
        by (simp add: map_blocks_String del: map_blocks.simps)
    qed
  next
    case (StructuredBlock t name)
    let ?p = "path_join (path (vfiles h file)) (ToString_index i @ js ''_'' @ name)"
    let ?v = "next_addr h"
    let ?h1 = "snd (new_VFile ?p (Text t) (physicalPath (vfiles h file)) h)"
    let ?h' = "snd (map_blocks file (Suc i) bs ?h1)"
    have step: "map_blocks file i (blk # bs) h
                  = (VFileRef ?v # fst (map_blocks file (Suc i) bs ?h1), ?h')"
      using StructuredBlock by (simp add: map_blocks_Structured Let_def del: map_blocks.simps)
    have file1: "file < next_addr ?h1" using Cons.prems(1) by (simp add: new_VFile_def)
    have same: "vfiles ?h1 file = vfiles h file"
      using Cons.prems(1) by (simp add: new_VFile_def)
    show ?thesis
    proof (cases k)
      case 0
      have "preserves ?h1 ?h'" by (rule map_blocks_preserves)
      moreover have "?v < next_addr ?h1" by (simp add: new_VFile_def)
      ultimately have "vfiles ?h' ?v = vfiles ?h1 ?v" by (simp add: preserves_def)
      then have "vfiles ?h' ?v =
                 \<lparr>path = ?p, physicalPath = physicalPath (vfiles h file),
                  body = Text t, bom = False\<rparr>"
        by (simp add: new_VFile_def)
      with 0 StructuredBlock show ?thesis
        unfolding step by (simp add: derived_from_def)
    next
      case (Suc k')
      with Cons.prems have "k' < length bs" by simp
      from Cons.IH [OF file1 this, of "Suc i"]
      have "derived_from file (Suc i + k') (bs ! k') ?h1
              (fst (map_blocks file (Suc i) bs ?h1) ! k') ?h'" .
      then have "derived_from file (Suc i + k') (bs ! k') h
              (fst (map_blocks file (Suc i) bs ?h1) ! k') ?h'"
        by (simp only: derived_from_same [OF same])
      with Suc show ?thesis unfolding step by simp
    qed
  qed
qed

subsection \<open>The outcomes of \<open>preprocessSync\<close>\<close>

lemma preprocessSync_blocks:
  assumes "getBodyWithBOM file h = (Normal b, h1)"
    and "preprocess (processor cfg) b (path (vfiles h1 file)) h1 = (Normal (BlockArray bs), h2)"
  shows "preprocessSync file cfg h =
           (Normal \<lparr>ok = True, files = Some (fst (map_blocks file 0 bs h2)), errors = None\<rparr>,
            snd (map_blocks file 0 bs h2))"
  using assms by (simp add: preprocessSync_def Let_def case_prod_beta)

lemma preprocessSync_throws:
  assumes "getBodyWithBOM file h = (Normal b, h1)"
    and "preprocess (processor cfg) b (path (vfiles h1 file)) h1 = (Throw ex, h2)"
  shows "preprocessSync file cfg h = (preprocessing_failure ex, h2)"
  using assms by (simp add: preprocessSync_def Let_def)

lemma preprocessing_failure_error:
  assumes "map_of ps ''message'' = Some (String m)"
  shows "preprocessing_failure (Object ps) =
           Normal \<lparr>ok = False, files = None,
                   errors = Some [\<lparr>ruleId = Null, fatal = True, severity = 2,
                     message = js ''Preprocessing error: ''
                                 @ trim (replace_anchored line_number_pattern (js '''') m),
                     line = (case map_of ps ''lineNumber'' of Some v \<Rightarrow> v | None \<Rightarrow> Undefined),
                     column = (case map_of ps ''column'' of Some v \<Rightarrow> v | None \<Rightarrow> Undefined),
                     nodeType = Null\<rparr>]\<rparr>"
  using assms by (simp add: preprocessing_failure_def)

text \<open>
  A thrown value that is no error object is not turned into a diagnostic: the
  \<open>catch\<close> clause itself throws, for a thrown string, number, \<open>null\<close> or \<open>undefined\<close>
  and for an object without a string \<open>message\<close>.
\<close>

lemma preprocessing_failure_not_an_error:
  "(\<forall>ps. ex \<noteq> Object ps) \<or> (\<exists>ps. ex = Object ps \<and> (\<forall>m. map_of ps ''message'' \<noteq> Some (String m)))
   \<Longrightarrow> \<exists>msg. preprocessing_failure ex = Throw (TypeError msg)"
  by (cases ex)
     (auto simp: preprocessing_failure_def split: option.splits js_value.splits)


text \<open>
  Claim C7. When \<open>preprocess\<close> returns an array of blocks, \<open>preprocessSync\<close> returns
  \<open>{ ok: true, files }\<close> where \<open>files\<close> is as long as the array, a string block is at its
  own position in \<open>files\<close>, unchanged, and (the file being an allocated object) the
  element at every position is the one derived from the block at that position.
\<close>

theorem preprocessSync_maps_blocks_in_order:
  assumes "getBodyWithBOM file h = (Normal b, h1)"
    and "preprocess (processor cfg) b (path (vfiles h1 file)) h1 = (Normal (BlockArray bs), h2)"
  shows "\<exists>fs h3. preprocessSync file cfg h
                    = (Normal \<lparr>ok = True, files = Some fs, errors = None\<rparr>, h3)
           \<and> length fs = length bs
           \<and> (\<forall>i s. i < length bs \<and> bs ! i = StringBlock s \<longrightarrow> fs ! i = StringUnit s)
           \<and> (file < next_addr h2 \<longrightarrow>
                (\<forall>i<length bs. derived_from file i (bs ! i) h2 (fs ! i) h3))"
proof (intro exI conjI allI impI)
  show "preprocessSync file cfg h =
           (Normal \<lparr>ok = True, files = Some (fst (map_blocks file 0 bs h2)), errors = None\<rparr>,
            snd (map_blocks file 0 bs h2))"
    using assms by (rule preprocessSync_blocks)
  show "length (fst (map_blocks file 0 bs h2)) = length bs"
    by (rule map_blocks_length)
next
  fix i s assume "i < length bs \<and> bs ! i = StringBlock s"
  then show "fst (map_blocks file 0 bs h2) ! i = StringUnit s"
    by (simp add: map_blocks_string_nth)
next
  fix i assume "file < next_addr h2" "i < length bs"
  from map_blocks_nth [OF this, of 0]
  show "derived_from file i (bs ! i) h2 (fst (map_blocks file 0 bs h2) ! i)
          (snd (map_blocks file 0 bs h2))"
    by simp
qed

theorem preprocessSync_maps_blocks_in_order_witness:
  "fst (preprocessSync 0 \<lparr>processor = legacy_processor\<rparr> (text_heap False))
     = Normal \<lparr>ok = True, files = Some [StringUnit (js ''plain text'')], errors = None\<rparr>
   \<and> (\<exists>fs h3. preprocessSync 0 \<lparr>processor = markdown_processor\<rparr> (text_heap False)
                    = (Normal \<lparr>ok = True, files = Some fs, errors = None\<rparr>, h3)
          \<and> length fs = 2
          \<and> derived_from 0 0 (StructuredBlock (js ''a'') (js ''x.js'')) (text_heap False)
                (fs ! 0) h3
          \<and> derived_from 0 1 (StructuredBlock (js ''b'') (js ''y.js'')) (text_heap False)
                (fs ! 1) h3)"
proof
  let ?bs = "[StructuredBlock (js ''a'') (js ''x.js''), StructuredBlock (js ''b'') (js ''y.js'')]"
  have g: "getBodyWithBOM 0 (text_heap False) = (Normal (Text (js ''# Title'')), text_heap False)"
    by (simp add: getBodyWithBOM_def text_heap_def foo_md_def)
  have p: "preprocess (processor \<lparr>processor = markdown_processor\<rparr>) (Text (js ''# Title''))
             (path (vfiles (text_heap False) 0)) (text_heap False)
           = (Normal (BlockArray ?bs), text_heap False)"
    by (simp add: markdown_processor_def)
  have a: "0 < next_addr (text_heap False)" by (simp add: text_heap_def)
  from preprocessSync_maps_blocks_in_order [OF g p] a
  obtain fs h3 where r: "preprocessSync 0 \<lparr>processor = markdown_processor\<rparr> (text_heap False)
                      = (Normal \<lparr>ok = True, files = Some fs, errors = None\<rparr>, h3)"
    and len: "length fs = length ?bs"
    and der: "\<forall>i<length ?bs. derived_from 0 i (?bs ! i) (text_heap False) (fs ! i) h3"
    by blast
  from der [rule_format, of 0] der [rule_format, of 1]
  have "derived_from 0 0 (?bs ! 0) (text_heap False) (fs ! 0) h3"
    and "derived_from 0 1 (?bs ! 1) (text_heap False) (fs ! 1) h3"
    by simp_all
  with r len
  show "\<exists>fs h3. preprocessSync 0 \<lparr>processor = markdown_processor\<rparr> (text_heap False)
                    = (Normal \<lparr>ok = True, files = Some fs, errors = None\<rparr>, h3)
          \<and> length fs = 2
          \<and> derived_from 0 0 (StructuredBlock (js ''a'') (js ''x.js'')) (text_heap False)
                (fs ! 0) h3
          \<and> derived_from 0 1 (StructuredBlock (js ''b'') (js ''y.js'')) (text_heap False)
                (fs ! 1) h3"
    by auto
next
  show "fst (preprocessSync 0 \<lparr>processor = legacy_processor\<rparr> (text_heap False))
     = Normal \<lparr>ok = True, files = Some [StringUnit (js ''plain text'')], errors = None\<rparr>"
  proof -
  have g: "getBodyWithBOM 0 (text_heap False) = (Normal (Text (js ''# Title'')), text_heap False)"
    by (simp add: getBodyWithBOM_def text_heap_def foo_md_def)
  have p: "preprocess (processor \<lparr>processor = legacy_processor\<rparr>) (Text (js ''# Title''))
             (path (vfiles (text_heap False) 0)) (text_heap False)
           = (Normal (BlockArray [StringBlock (js ''plain text'')]), text_heap False)"
    by (simp add: legacy_processor_def)
  from preprocessSync_maps_blocks_in_order [OF g p]
  obtain fs h3 where r: "preprocessSync 0 \<lparr>processor = legacy_processor\<rparr> (text_heap False)
                      = (Normal \<lparr>ok = True, files = Some fs, errors = None\<rparr>, h3)"
    and len: "length fs = length [StringBlock (js ''plain text'')]"
    and str: "\<forall>i s. i < length [StringBlock (js ''plain text'')]
                \<and> [StringBlock (js ''plain text'')] ! i = StringBlock s \<longrightarrow> fs ! i = StringUnit s"
    by blast
  from str have "fs ! 0 = StringUnit (js ''plain text'')" by simp
  with len have "fs = [StringUnit (js ''plain text'')]" by (cases fs) auto
  with r show ?thesis by simp
  qed
qed

text \<open>
  Claim C2. When \<open>preprocess\<close> throws an error (an object whose \<open>message\<close> is a string),
  \<open>preprocessSync\<close> returns \<open>{ ok: false, errors: [record] }\<close> with the one record having
  \<open>ruleId\<close> null, \<open>fatal\<close> true, \<open>severity\<close> 2 and \<open>nodeType\<close> null, its \<open>line\<close> and \<open>column\<close>
  being the \<open>lineNumber\<close> and \<open>column\<close> of the error, or undefined where the error has
  none. No files are produced, and the heap is as the processor left it.
\<close>

theorem preprocessSync_failure_record:
  assumes "getBodyWithBOM file h = (Normal b, h1)"
    and "preprocess (processor cfg) b (path (vfiles h1 file)) h1 = (Throw (Object ps), h2)"
    and "map_of ps ''message'' = Some (String m)"
  shows "\<exists>msg. preprocessSync file cfg h =
           (Normal \<lparr>ok = False, files = None,
                    errors = Some [\<lparr>ruleId = Null, fatal = True, severity = 2, message = msg,
                      line = (case map_of ps ''lineNumber'' of Some v \<Rightarrow> v | None \<Rightarrow> Undefined),
                      column = (case map_of ps ''column'' of Some v \<Rightarrow> v | None \<Rightarrow> Undefined),
                      nodeType = Null\<rparr>]\<rparr>, h2)"
  using preprocessSync_throws [OF assms(1,2)] preprocessing_failure_error [OF assms(3)]
  by simp

theorem preprocessSync_failure_record_witness:
  "\<exists>msg. preprocessSync 0 \<lparr>processor = failing_processor\<rparr> (text_heap False) =
           (Normal \<lparr>ok = False, files = None,
                    errors = Some [\<lparr>ruleId = Null, fatal = True, severity = 2, message = msg,
                                    line = Number 4, column = Undefined, nodeType = Null\<rparr>]\<rparr>,
            text_heap False)"
proof -
  have g: "getBodyWithBOM 0 (text_heap False) = (Normal (Text (js ''# Title'')), text_heap False)"
    by (simp add: getBodyWithBOM_def text_heap_def foo_md_def)
  have p: "preprocess (processor \<lparr>processor = failing_processor\<rparr>) (Text (js ''# Title''))
             (path (vfiles (text_heap False) 0)) (text_heap False)
           = (Throw (Object [(''message'', String (js ''line 4: bad token'')),
                             (''lineNumber'', Number 4)]), text_heap False)"
    by (simp add: failing_processor_def)
  have m: "map_of [(''message'', String (js ''line 4: bad token'')), (''lineNumber'', Number 4)]
             ''message'' = Some (String (js ''line 4: bad token''))"
    by simp
  from preprocessSync_failure_record [OF g p m] show ?thesis by simp
qed

text \<open>
  Claim C4. When \<open>preprocess\<close> returns a thenable, \<open>preprocessSync\<close> throws the error
  \<open>Unsupported: Preprocessor returned a promise.\<close>: it returns no result object, and
  the failure is not made a diagnostic record.
\<close>

theorem preprocessSync_thenable_throws:
  assumes "getBodyWithBOM file h = (Normal b, h1)"
    and "preprocess (processor cfg) b (path (vfiles h1 file)) h1 = (Normal Thenable, h2)"
  shows "preprocessSync file cfg h
           = (Throw (Error ''Unsupported: Preprocessor returned a promise.''), h2)
         \<and> (\<forall>r. fst (preprocessSync file cfg h) \<noteq> Normal r)"
  using assms by (simp add: preprocessSync_def Let_def)

theorem preprocessSync_thenable_throws_witness:
  "preprocessSync 0 \<lparr>processor = async_processor\<rparr> (text_heap False)
     = (Throw (Error ''Unsupported: Preprocessor returned a promise.''), text_heap False)"
proof -
  have g: "getBodyWithBOM 0 (text_heap False) = (Normal (Text (js ''# Title'')), text_heap False)"
    by (simp add: getBodyWithBOM_def text_heap_def foo_md_def)
  have p: "preprocess (processor \<lparr>processor = async_processor\<rparr>) (Text (js ''# Title''))
             (path (vfiles (text_heap False) 0)) (text_heap False)
           = (Normal Thenable, text_heap False)"
    by (simp add: async_processor_def)
  from preprocessSync_thenable_throws [OF g p] show ?thesis by simp
qed

text \<open>
  Claim C10. A value returned by \<open>preprocess\<close> that is \<open>null\<close> or \<open>undefined\<close> is not
  covered by the \<open>catch\<close> clause: reading its \<open>then\<close> throws a \<open>TypeError\<close> out of
  \<open>preprocessSync\<close>, which returns no result object and makes no diagnostic.
\<close>

theorem preprocessSync_nullish_result_throws:
  assumes "getBodyWithBOM file h = (Normal b, h1)"
    and "preprocess (processor cfg) b (path (vfiles h1 file)) h1 = (Normal (Plain v), h2)"
    and "v = Null \<or> v = Undefined"
  shows "(\<exists>msg. preprocessSync file cfg h = (Throw (TypeError msg), h2))
         \<and> (\<forall>r. fst (preprocessSync file cfg h) \<noteq> Normal r)"
  using assms by (auto simp: preprocessSync_def Let_def)

theorem preprocessSync_nullish_result_throws_witness:
  "(\<exists>msg. preprocessSync 0 \<lparr>processor = plain_processor Null\<rparr> (text_heap False)
            = (Throw (TypeError msg), text_heap False))
   \<and> (\<exists>msg. preprocessSync 0 \<lparr>processor = plain_processor Undefined\<rparr> (text_heap False)
            = (Throw (TypeError msg), text_heap False))"
proof -
  have g: "getBodyWithBOM 0 (text_heap False) = (Normal (Text (js ''# Title'')), text_heap False)"
    by (simp add: getBodyWithBOM_def text_heap_def foo_md_def)
  have p: "preprocess (processor \<lparr>processor = plain_processor v\<rparr>) (Text (js ''# Title''))
             (path (vfiles (text_heap False) 0)) (text_heap False)
           = (Normal (Plain v), text_heap False)" for v
    by (simp add: plain_processor_def)
  have n: "(Null::js_value) = Null \<or> Null = Undefined"
    and u: "(Undefined::js_value) = Null \<or> Undefined = Undefined"
    by simp_all
  from preprocessSync_nullish_result_throws [OF g p n]
       preprocessSync_nullish_result_throws [OF g p u]
  show ?thesis by blast
qed

subsection \<open>\<open>postprocessSync\<close>\<close>

text \<open>
  Claim C8. With a \<open>postprocess\<close> in the processor, \<open>postprocessSync\<close> is the call
  \<open>postprocess(messages, file.path)\<close>, arguments as given and outcome as it is (a thrown
  value included); without one it returns \<open>messages\<close> as they are.
\<close>

theorem postprocessSync_delegates_or_identity:
  "(\<forall>post. postprocess (processor cfg) = Some post \<longrightarrow>
      postprocessSync file messages cfg h = post messages (path (vfiles h file)) h)
   \<and> (postprocess (processor cfg) = None \<longrightarrow>
      postprocessSync file messages cfg h = (Normal messages, h))"
  by (simp add: postprocessSync_def)

theorem postprocessSync_delegates_or_identity_witness:
  "postprocessSync 0 [[sample_message], [], [sample_message]]
      \<lparr>processor = legacy_processor\<rparr> (text_heap False)
     = (Normal [[sample_message, sample_message]], text_heap False)
   \<and> postprocessSync 0 [[sample_message], [], [sample_message]]
      \<lparr>processor = markdown_processor\<rparr> (text_heap False)
     = (Normal [[sample_message], [], [sample_message]], text_heap False)"
  using postprocessSync_delegates_or_identity
          [of "\<lparr>processor = legacy_processor\<rparr>" 0
              "[[sample_message], [], [sample_message]]" "text_heap False"]
        postprocessSync_delegates_or_identity
          [of "\<lparr>processor = markdown_processor\<rparr>" 0
              "[[sample_message], [], [sample_message]]" "text_heap False"]
  by (simp add: legacy_processor_def markdown_processor_def)


subsection \<open>The message of a preprocessing failure\<close>

lemma match_One:
  "match_here (One p # re) s = Some rest \<longleftrightarrow>
     (\<exists>c s'. s = c # s' \<and> p c \<and> match_here re s' = Some rest)"
  by (cases s) auto

lemma match_colon:
  "match_here [One (any_of '':'')] s = Some rest \<longleftrightarrow> s = js '':'' @ rest"
  by (cases s) (auto simp: any_of_def js_def)

lemma colon_not_digit: "\<not> is_digit (of_char CHR '':'')"
  by (simp add: is_digit_def)

text \<open>
  \<open>\<bslash>d+:\<close> matches exactly a non-empty run of digits followed by a colon, and the
  match is unique since the colon is no digit.
\<close>

lemma match_digits_colon:
  "match_here [OneOrMore is_digit, One (any_of '':'')] s = Some rest \<longleftrightarrow>
     (\<exists>ds. s = ds @ js '':'' @ rest \<and> ds \<noteq> [] \<and> list_all is_digit ds)"
proof (induction s)
  case Nil
  show ?case by simp
next
  case (Cons c s)
  note IH = Cons.IH
  show ?case
  proof (cases "is_digit c")
    case False
    have "\<not> (\<exists>ds. c # s = ds @ js '':'' @ rest \<and> ds \<noteq> [] \<and> list_all is_digit ds)"
    proof
      assume "\<exists>ds. c # s = ds @ js '':'' @ rest \<and> ds \<noteq> [] \<and> list_all is_digit ds"
      then obtain ds where "c # s = ds @ js '':'' @ rest" "ds \<noteq> []" "list_all is_digit ds"
        by blast
      then have "is_digit c" by (cases ds) auto
      with False show False by simp
    qed
    with False show ?thesis by simp
  next
    case True
    show ?thesis
    proof
      assume m: "match_here [OneOrMore is_digit, One (any_of '':'')] (c # s) = Some rest"
      show "\<exists>ds. c # s = ds @ js '':'' @ rest \<and> ds \<noteq> [] \<and> list_all is_digit ds"
      proof (cases "match_here [OneOrMore is_digit, One (any_of '':'')] s")
        case (Some r)
        with m True have "match_here [OneOrMore is_digit, One (any_of '':'')] s = Some rest"
          by simp
        with IH obtain ds where "s = ds @ js '':'' @ rest" "list_all is_digit ds"
          by blast
        with True have "c # s = (c # ds) @ js '':'' @ rest \<and> c # ds \<noteq> []
                          \<and> list_all is_digit (c # ds)"
          by simp
        then show ?thesis by blast
      next
        case None
        with m True have "match_here [One (any_of '':'')] s = Some rest" by simp
        then have "s = js '':'' @ rest" by (simp only: match_colon)
        with True have "c # s = [c] @ js '':'' @ rest \<and> [c] \<noteq> [] \<and> list_all is_digit [c]"
          by simp
        then show ?thesis by blast
      qed
    next
      assume "\<exists>ds. c # s = ds @ js '':'' @ rest \<and> ds \<noteq> [] \<and> list_all is_digit ds"
      then obtain ds where ds: "c # s = ds @ js '':'' @ rest" "ds \<noteq> []" "list_all is_digit ds"
        by blast
      then obtain ds' where ds': "ds = c # ds'" by (cases ds) auto
      show "match_here [OneOrMore is_digit, One (any_of '':'')] (c # s) = Some rest"
      proof (cases "ds' = []")
        case True
        with ds ds' have s: "s = js '':'' @ rest" by simp
        then have "match_here [One (any_of '':'')] s = Some rest" by (simp only: match_colon)
        moreover have "match_here [OneOrMore is_digit, One (any_of '':'')] s = None"
          using s colon_not_digit by (simp add: js_def)
        ultimately show ?thesis using \<open>is_digit c\<close> by simp
      next
        case False
        with ds ds' have "s = ds' @ js '':'' @ rest \<and> ds' \<noteq> [] \<and> list_all is_digit ds'"
          by simp
        then have "match_here [OneOrMore is_digit, One (any_of '':'')] s = Some rest"
          using IH by blast
        with \<open>is_digit c\<close> show ?thesis by simp
      qed
    qed
  qed
qed

lemma add_0x20: "(c::code_unit) + 0x20 = d \<longleftrightarrow> c = d - 0x20"
  by auto

lemma lower_l: "ascii_lower c = of_char CHR ''l'' \<longleftrightarrow> any_of ''lL'' c"
  by (auto simp: ascii_lower_def any_of_def js_def add_0x20)

lemma lower_i: "ascii_lower c = of_char CHR ''i'' \<longleftrightarrow> any_of ''iI'' c"
  by (auto simp: ascii_lower_def any_of_def js_def add_0x20)

lemma lower_n: "ascii_lower c = of_char CHR ''n'' \<longleftrightarrow> any_of ''nN'' c"
  by (auto simp: ascii_lower_def any_of_def js_def add_0x20)

lemma lower_e: "ascii_lower c = of_char CHR ''e'' \<longleftrightarrow> any_of ''eE'' c"
  by (auto simp: ascii_lower_def any_of_def js_def add_0x20)

lemma lower_space: "ascii_lower c = of_char CHR '' '' \<longleftrightarrow> any_of '' '' c"
  by (auto simp: ascii_lower_def any_of_def js_def add_0x20)

lemma lower_line:
  "map ascii_lower w = js ''line '' \<longleftrightarrow>
     (\<exists>c1 c2 c3 c4 c5. w = [c1, c2, c3, c4, c5] \<and> any_of ''lL'' c1 \<and> any_of ''iI'' c2
        \<and> any_of ''nN'' c3 \<and> any_of ''eE'' c4 \<and> any_of '' '' c5)"
  unfolding lower_l [symmetric] lower_i [symmetric] lower_n [symmetric] lower_e [symmetric]
    lower_space [symmetric]
  by (auto simp: js_def map_eq_Cons_conv)

text \<open>The regular expression of the source matches what the spec describes.\<close>

lemma match_line_number_pattern:
  "match_here line_number_pattern m = Some rest \<longleftrightarrow> line_number_prefix m rest"
proof -
  have "match_here line_number_pattern m = Some rest \<longleftrightarrow>
        (\<exists>c1 c2 c3 c4 c5 s. m = [c1, c2, c3, c4, c5] @ s \<and> any_of ''lL'' c1 \<and> any_of ''iI'' c2
            \<and> any_of ''nN'' c3 \<and> any_of ''eE'' c4 \<and> any_of '' '' c5
            \<and> match_here [OneOrMore is_digit, One (any_of '':'')] s = Some rest)"
    unfolding line_number_pattern_def by (simp only: match_One) auto
  also have "\<dots> \<longleftrightarrow> (\<exists>w s. m = w @ s \<and> map ascii_lower w = js ''line ''
            \<and> match_here [OneOrMore is_digit, One (any_of '':'')] s = Some rest)"
    unfolding lower_line by blast
  also have "\<dots> \<longleftrightarrow> line_number_prefix m rest"
    unfolding match_digits_colon line_number_prefix_def by blast
  finally show ?thesis .
qed

text \<open>
  \<open>trim\<close> removes exactly the white space around a string: its result is the one
  string that \<open>trimmed\<close> describes.
\<close>

lemma trim_trimmed: "trimmed s (trim s)"
proof -
  let ?l = "takeWhile is_white_space s"
  let ?rest = "dropWhile is_white_space s"
  let ?t = "rev (dropWhile is_white_space (rev ?rest))"
  let ?r = "rev (takeWhile is_white_space (rev ?rest))"
  have "?t @ ?r = rev (takeWhile is_white_space (rev ?rest)
                       @ dropWhile is_white_space (rev ?rest))"
    by (simp only: rev_append)
  also have "\<dots> = rev (rev ?rest)" by (simp only: takeWhile_dropWhile_id)
  also have "\<dots> = ?rest" by (simp only: rev_rev_ident)
  finally have rest: "?rest = ?t @ ?r" by (rule sym)
  have s: "s = ?l @ ?t @ ?r" using rest takeWhile_dropWhile_id [of is_white_space s] by simp
  have l: "list_all is_white_space ?l"
    by (simp add: list_all_iff) (meson set_takeWhileD)
  have r: "list_all is_white_space ?r"
    by (simp add: list_all_iff) (meson set_takeWhileD)
  have ends: "?t = [] \<or> (\<not> is_white_space (hd ?t) \<and> \<not> is_white_space (last ?t))"
  proof (cases "?t = []")
    case True
    then show ?thesis by simp
  next
    case False
    then have ne: "dropWhile is_white_space (rev ?rest) \<noteq> []" by simp
    then have "\<not> is_white_space (hd (dropWhile is_white_space (rev ?rest)))"
      by (rule hd_dropWhile)
    with ne have last: "\<not> is_white_space (last ?t)" by (simp add: last_rev)
    have "?rest \<noteq> []"
    proof
      assume "?rest = []"
      then have "?t = []" by (simp only: rev.simps dropWhile.simps)
      with False show False by simp
    qed
    then have "\<not> is_white_space (hd ?rest)" by (rule hd_dropWhile)
    moreover from False rest have "hd ?rest = hd ?t" by (metis hd_append2)
    ultimately show ?thesis using last by simp
  qed
  from s l r ends show ?thesis unfolding trimmed_def trim_def by blast
qed

lemma dropWhile_all: "list_all P l \<Longrightarrow> dropWhile P (l @ ys) = dropWhile P ys"
  by (induction l) simp_all

lemma trimmed_unique: "trimmed s t \<Longrightarrow> t = trim s"
proof -
  assume "trimmed s t"
  then obtain l r where s: "s = l @ t @ r" and l: "list_all is_white_space l"
    and r: "list_all is_white_space r"
    and e: "t = [] \<or> (\<not> is_white_space (hd t) \<and> \<not> is_white_space (last t))"
    unfolding trimmed_def by blast
  have rr: "list_all is_white_space (rev r)" using r by (simp add: list_all_iff)
  show ?thesis
  proof (cases "t = []")
    case True
    have "list_all is_white_space (l @ r)" using l r by simp
    then have "dropWhile is_white_space (l @ r) = []"
      by (simp only: dropWhile_eq_Nil_conv list_all_iff)
    moreover from True s have "s = l @ r" by simp
    ultimately have "dropWhile is_white_space s = []" by (simp only:)
    then have "trim s = []" by (simp only: trim_def rev.simps dropWhile.simps)
    with True show ?thesis by simp
  next
    case False
    with e have h: "\<not> is_white_space (hd t)" and la: "\<not> is_white_space (last t)" by simp_all
    from False h have "dropWhile is_white_space (t @ r) = t @ r" by (cases t) simp_all
    with l s have d: "dropWhile is_white_space s = t @ r" by (simp add: dropWhile_all)
    from False obtain a u where rt: "rev t = a # u" by (cases "rev t") auto
    then have "hd (rev t) = a" by simp
    with False have "a = last t" by (simp add: hd_rev)
    with la have "\<not> is_white_space a" by simp
    then have "dropWhile is_white_space (a # u) = a # u" by simp
    with rt have "dropWhile is_white_space (rev t) = rev t" by (simp only:)
    with rr have "dropWhile is_white_space (rev (t @ r)) = rev t" by (simp add: dropWhile_all)
    with d show ?thesis by (simp add: trim_def)
  qed
qed

lemma replace_line_number:
  "(line_number_prefix m rest \<longrightarrow> replace_anchored line_number_pattern (js '''') m = rest)
   \<and> ((\<forall>rest. \<not> line_number_prefix m rest) \<longrightarrow>
        replace_anchored line_number_pattern (js '''') m = m)"
proof (cases "match_here line_number_pattern m")
  case None
  then have "\<forall>rest. \<not> line_number_prefix m rest"
    by (simp add: match_line_number_pattern [symmetric])
  with None show ?thesis by (simp add: replace_anchored_def)
next
  case (Some r)
  then have r: "line_number_prefix m r" by (simp add: match_line_number_pattern)
  have "line_number_prefix m rest \<longrightarrow> rest = r"
    using Some by (simp add: match_line_number_pattern [symmetric])
  with Some r show ?thesis by (auto simp: replace_anchored_def js_def)
qed

text \<open>
  Claim C3. When \<open>preprocess\<close> throws an error with the message \<open>m\<close>, the message of the
  diagnostic is \<open>Preprocessing error: \<close> followed by the rest of \<open>m\<close> after a leading
  \<open>line <digits>:\<close> (in any case), without the white space around it; when \<open>m\<close> has no
  such prefix, by \<open>m\<close> without the white space around it. For \<open>line 4: bad token\<close> this
  is \<open>Preprocessing error: bad token\<close>.
\<close>

theorem preprocessSync_failure_message:
  assumes "getBodyWithBOM file h = (Normal b, h1)"
    and "preprocess (processor cfg) b (path (vfiles h1 file)) h1 = (Throw (Object ps), h2)"
    and "map_of ps ''message'' = Some (String m)"
  shows "\<exists>d. preprocessSync file cfg h
                = (Normal \<lparr>ok = False, files = None, errors = Some [d]\<rparr>, h2)
           \<and> (\<forall>rest. line_number_prefix m rest \<longrightarrow>
                 (\<exists>t. trimmed rest t \<and> message d = js ''Preprocessing error: '' @ t))
           \<and> ((\<forall>rest. \<not> line_number_prefix m rest) \<longrightarrow>
                 (\<exists>t. trimmed m t \<and> message d = js ''Preprocessing error: '' @ t))"
proof -
  let ?msg = "js ''Preprocessing error: ''
                @ trim (replace_anchored line_number_pattern (js '''') m)"
  let ?d = "\<lparr>ruleId = Null, fatal = True, severity = 2, message = ?msg,
             line = (case map_of ps ''lineNumber'' of Some v \<Rightarrow> v | None \<Rightarrow> Undefined),
             column = (case map_of ps ''column'' of Some v \<Rightarrow> v | None \<Rightarrow> Undefined),
             nodeType = Null\<rparr>"
  have run: "preprocessSync file cfg h
               = (Normal \<lparr>ok = False, files = None, errors = Some [?d]\<rparr>, h2)"
    using preprocessSync_throws [OF assms(1,2)] preprocessing_failure_error [OF assms(3)]
    by simp
  have stripped: "\<forall>rest. line_number_prefix m rest \<longrightarrow>
                   (\<exists>t. trimmed rest t \<and> message ?d = js ''Preprocessing error: '' @ t)"
  proof (intro allI impI)
    fix rest assume "line_number_prefix m rest"
    with replace_line_number [of m rest]
    have "replace_anchored line_number_pattern (js '''') m = rest" by simp
    then have "message ?d = js ''Preprocessing error: '' @ trim rest" by simp
    with trim_trimmed [of rest]
    show "\<exists>t. trimmed rest t \<and> message ?d = js ''Preprocessing error: '' @ t" by blast
  qed
  have kept: "(\<forall>rest. \<not> line_number_prefix m rest) \<longrightarrow>
                (\<exists>t. trimmed m t \<and> message ?d = js ''Preprocessing error: '' @ t)"
  proof
    assume "\<forall>rest. \<not> line_number_prefix m rest"
    with replace_line_number [of m]
    have "replace_anchored line_number_pattern (js '''') m = m" by simp
    then have "message ?d = js ''Preprocessing error: '' @ trim m" by simp
    with trim_trimmed [of m]
    show "\<exists>t. trimmed m t \<and> message ?d = js ''Preprocessing error: '' @ t" by blast
  qed
  from run stripped kept show ?thesis by blast
qed

theorem preprocessSync_failure_message_witness:
  "(\<exists>d. preprocessSync 0
           \<lparr>processor = throwing_processor (Object [(''message'', String (js ''line 4: bad token''))])\<rparr>
           (text_heap False)
         = (Normal \<lparr>ok = False, files = None, errors = Some [d]\<rparr>, text_heap False)
       \<and> message d = js ''Preprocessing error: bad token'')
   \<and> (\<exists>d. preprocessSync 0
           \<lparr>processor = throwing_processor
              (Object [(''message'',
                 String (js ''LINE 42:'' @ all_white_space @ js ''bad  token''
                           @ all_white_space))])\<rparr>
           (text_heap False)
         = (Normal \<lparr>ok = False, files = None, errors = Some [d]\<rparr>, text_heap False)
       \<and> message d = js ''Preprocessing error: bad  token'')
   \<and> (\<exists>d. preprocessSync 0
           \<lparr>processor = throwing_processor (Object [(''message'', String (js '' Line 4 is bad ''))])\<rparr>
           (text_heap False)
         = (Normal \<lparr>ok = False, files = None, errors = Some [d]\<rparr>, text_heap False)
       \<and> message d = js ''Preprocessing error: Line 4 is bad'')"
proof -
  have g: "getBodyWithBOM 0 (text_heap False) = (Normal (Text (js ''# Title'')), text_heap False)"
    by (simp add: getBodyWithBOM_def text_heap_def foo_md_def)
  have p: "preprocess (processor \<lparr>processor = throwing_processor (Object ps)\<rparr>)
             (Text (js ''# Title'')) (path (vfiles (text_heap False) 0)) (text_heap False)
           = (Throw (Object ps), text_heap False)" for ps
    by (simp add: throwing_processor_def)
  have first: "\<exists>d. preprocessSync 0
           \<lparr>processor = throwing_processor (Object [(''message'', String (js ''line 4: bad token''))])\<rparr>
           (text_heap False)
         = (Normal \<lparr>ok = False, files = None, errors = Some [d]\<rparr>, text_heap False)
       \<and> message d = js ''Preprocessing error: bad token''"
  proof -
    let ?m = "js ''line 4: bad token''"
    have m: "map_of [(''message'', String ?m)] ''message'' = Some (String ?m)" by simp
    have "?m = js ''line '' @ js ''4'' @ js '':'' @ js '' bad token''
          \<and> map ascii_lower (js ''line '') = js ''line '' \<and> js ''4'' \<noteq> []
          \<and> list_all is_digit (js ''4'')"
      by (simp add: js_def ascii_lower_def is_digit_def)
    then have pre: "line_number_prefix ?m (js '' bad token'')"
      unfolding line_number_prefix_def by blast
    have t: "trim (js '' bad token'') = js ''bad token''"
      by (simp add: trim_def js_def is_white_space_def)
    from preprocessSync_failure_message [OF g p m] pre
    obtain d u where "preprocessSync 0
           \<lparr>processor = throwing_processor (Object [(''message'', String ?m)])\<rparr>
           (text_heap False)
         = (Normal \<lparr>ok = False, files = None, errors = Some [d]\<rparr>, text_heap False)"
      and "trimmed (js '' bad token'') u"
      and "message d = js ''Preprocessing error: '' @ u"
      by blast
    with t trimmed_unique [of "js '' bad token''" u] show ?thesis
      by (auto simp: js_def)
  qed
  have second: "\<exists>d. preprocessSync 0
           \<lparr>processor = throwing_processor
              (Object [(''message'',
                 String (js ''LINE 42:'' @ all_white_space @ js ''bad  token''
                           @ all_white_space))])\<rparr>
           (text_heap False)
         = (Normal \<lparr>ok = False, files = None, errors = Some [d]\<rparr>, text_heap False)
       \<and> message d = js ''Preprocessing error: bad  token''"
  proof -
    let ?rest = "all_white_space @ js ''bad  token'' @ all_white_space"
    let ?m = "js ''LINE 42:'' @ ?rest"
    have m: "map_of [(''message'', String ?m)] ''message'' = Some (String ?m)" by simp
    have "?m = js ''LINE '' @ js ''42'' @ js '':'' @ ?rest
          \<and> map ascii_lower (js ''LINE '') = js ''line '' \<and> js ''42'' \<noteq> []
          \<and> list_all is_digit (js ''42'')"
      by (simp add: js_def ascii_lower_def is_digit_def)
    then have pre: "line_number_prefix ?m ?rest"
      unfolding line_number_prefix_def by blast
    have t: "trim ?rest = js ''bad  token''"
      by (simp add: trim_def js_def is_white_space_def all_white_space_def)
    from preprocessSync_failure_message [OF g p m] pre
    obtain d u where "preprocessSync 0
           \<lparr>processor = throwing_processor (Object [(''message'', String ?m)])\<rparr>
           (text_heap False)
         = (Normal \<lparr>ok = False, files = None, errors = Some [d]\<rparr>, text_heap False)"
      and "trimmed ?rest u"
      and "message d = js ''Preprocessing error: '' @ u"
      by blast
    with t trimmed_unique [of ?rest u] show ?thesis
      by (auto simp: js_def)
  qed
  have third: "\<exists>d. preprocessSync 0
           \<lparr>processor = throwing_processor (Object [(''message'', String (js '' Line 4 is bad ''))])\<rparr>
           (text_heap False)
         = (Normal \<lparr>ok = False, files = None, errors = Some [d]\<rparr>, text_heap False)
       \<and> message d = js ''Preprocessing error: Line 4 is bad''"
  proof -
    let ?m = "js '' Line 4 is bad ''"
    have m: "map_of [(''message'', String ?m)] ''message'' = Some (String ?m)" by simp
    have "match_here line_number_pattern ?m = None"
      by (simp add: line_number_pattern_def js_def any_of_def)
    then have none: "\<forall>rest. \<not> line_number_prefix ?m rest"
      by (simp add: match_line_number_pattern [symmetric])
    have t: "trim ?m = js ''Line 4 is bad''"
      by (simp add: trim_def js_def is_white_space_def)
    from preprocessSync_failure_message [OF g p m] none
    obtain d u where "preprocessSync 0
           \<lparr>processor = throwing_processor (Object [(''message'', String ?m)])\<rparr>
           (text_heap False)
         = (Normal \<lparr>ok = False, files = None, errors = Some [d]\<rparr>, text_heap False)"
      and "trimmed ?m u"
      and "message d = js ''Preprocessing error: '' @ u"
      by blast
    with t trimmed_unique [of ?m u] show ?thesis
      by (auto simp: js_def)
  qed
  from first second third show ?thesis by blast
qed

subsection \<open>Joining plain paths\<close>

lemma split_on_not_Nil: "split_on sep s \<noteq> []"
  by (induction s) (auto split: list.splits)

lemma split_on_append: "split_on sep (a @ sep # b) = split_on sep a @ split_on sep b"
proof (induction a)
  case Nil
  show ?case by simp
next
  case (Cons c a)
  obtain seg segs where "split_on sep a = seg # segs"
    using split_on_not_Nil [of sep a] by (cases "split_on sep a") auto
  with Cons show ?case by simp
qed

lemma join_with_Cons:
  "segs \<noteq> [] \<Longrightarrow> join_with sep (seg # segs) = seg @ sep @ join_with sep segs"
  by (cases segs) simp_all

lemma join_split: "join_with [sep] (split_on sep s) = s"
proof (induction s)
  case Nil
  show ?case by simp
next
  case (Cons c s)
  obtain seg segs where sp: "split_on sep s = seg # segs"
    using split_on_not_Nil [of sep s] by (cases "split_on sep s") auto
  show ?case
  proof (cases "c = sep")
    case True
    with Cons sp show ?thesis by (simp add: join_with_Cons)
  next
    case False
    with Cons sp show ?thesis by (cases segs) simp_all
  qed
qed

lemma normalizeSegments_plain:
  "list_all plain_segment segs \<Longrightarrow> normalizeSegments allowAboveRoot res segs = res @ segs"
  by (induction segs arbitrary: res) (simp_all add: plain_segment_def)

lemma last_split_on: "s \<noteq> [] \<Longrightarrow> last s = sep \<Longrightarrow> last (split_on sep s) = []"
proof (induction s)
  case Nil
  then show ?case by simp
next
  case (Cons c s)
  obtain seg segs where sp: "split_on sep s = seg # segs"
    using split_on_not_Nil [of sep s] by (cases "split_on sep s") auto
  show ?case
  proof (cases "s = []")
    case True
    with Cons.prems show ?thesis by simp
  next
    case False
    with Cons have l: "last (split_on sep s) = []" by simp
    have "split_on sep s \<noteq> [[]]"
    proof
      assume "split_on sep s = [[]]"
      then have "join_with [sep] (split_on sep s) = []" by simp
      with False show False by (simp add: join_split)
    qed
    with sp l show ?thesis by (cases segs) auto
  qed
qed

lemma plain_relative_last:
  assumes "plain_relative n"
  shows "n \<noteq> [] \<and> last n \<noteq> of_char CHR ''/''"
proof -
  have ne: "n \<noteq> []" using assms by (auto simp: plain_relative_def plain_segment_def)
  have "last (split_on (of_char CHR ''/'') n) \<in> set (split_on (of_char CHR ''/'') n)"
    using split_on_not_Nil by (rule last_in_set)
  with assms have "last (split_on (of_char CHR ''/'') n) \<noteq> []"
    by (auto simp: plain_relative_def plain_segment_def list_all_iff)
  with ne last_split_on [of n "of_char CHR ''/''"] show ?thesis by blast
qed

lemma normalize_relative:
  assumes "plain_relative q"
  shows "join_with (js ''/'') (normalizeSegments a [] (split_on (of_char CHR ''/'') q)) = q"
  using assms by (simp add: plain_relative_def normalizeSegments_plain js_def join_split)

lemma plain_relative_append:
  "plain_relative a \<Longrightarrow> plain_relative b \<Longrightarrow> plain_relative (a @ js ''/'' @ b)"
  by (simp add: plain_relative_def js_def split_on_append)

text \<open>On plain paths \<open>path.join\<close> is concatenation with a \<open>/\<close> in between.\<close>

lemma path_join_plain:
  assumes p: "plain_path p" and n: "plain_relative n"
  shows "path_join p n = p @ js ''/'' @ n"
proof -
  from p obtain c cs where pc: "p = c # cs" by (cases p) (auto simp: plain_path_def)
  from n have nn: "n \<noteq> []" "last n \<noteq> of_char CHR ''/''" using plain_relative_last by auto
  have join: "path_join p n = path_normalize (p @ js ''/'' @ n)"
    using pc nn by (simp add: path_join_def)
  show ?thesis
  proof (cases "c = of_char CHR ''/''")
    case True
    with p pc have "plain_relative cs" by (simp add: plain_path_def)
    with n have rel: "plain_relative (cs @ js ''/'' @ n)" by (simp add: plain_relative_append)
    have "split_on (of_char CHR ''/'') (p @ js ''/'' @ n)
            = [] # split_on (of_char CHR ''/'') (cs @ js ''/'' @ n)"
      using pc True by simp
    then have "join_with (js ''/'')
                 (normalizeSegments False [] (split_on (of_char CHR ''/'') (p @ js ''/'' @ n)))
               = cs @ js ''/'' @ n"
      using normalize_relative [OF rel, of False] by simp
    then have "path_normalize (p @ js ''/'' @ n) = js ''/'' @ cs @ js ''/'' @ n"
      using pc True nn by (simp add: path_normalize_def Let_def js_def)
    with join pc True show ?thesis by (simp add: js_def)
  next
    case False
    with p pc have "plain_relative p" by (simp add: plain_path_def)
    with n have rel: "plain_relative (p @ js ''/'' @ n)" by (simp add: plain_relative_append)
    have "path_normalize (p @ js ''/'' @ n) = p @ js ''/'' @ n"
      using pc False nn normalize_relative [OF rel, of True]
      by (simp add: path_normalize_def Let_def js_def)
    with join show ?thesis by simp
  qed
qed

subsection \<open>The files derived from structured blocks\<close>

text \<open>The index in the name of a derived file is its decimal numeral.\<close>

lemma is_digit_of_nat: "d < 10 \<Longrightarrow> is_digit (of_nat (48 + d))"
  by (simp add: is_digit_def word_le_nat_alt unat_of_nat del: of_nat_add)

lemma digit_value_of_nat: "d < 10 \<Longrightarrow> digit_value (of_nat (48 + d)) = d"
  by (simp add: digit_value_def unat_of_nat del: of_nat_add)

lemma decimal_value_snoc: "decimal_value (s @ [c]) = 10 * decimal_value s + digit_value c"
  by (simp add: decimal_value_def)

lemma ToString_index_not_Nil: "ToString_index n \<noteq> []"
  by (subst ToString_index.simps) simp

lemma ToString_index_digits: "list_all is_digit (ToString_index n)"
proof (induction n rule: ToString_index.induct)
  case (1 n)
  show ?case
  proof (cases "n < 10")
    case True
    then show ?thesis by (subst ToString_index.simps) (simp add: is_digit_of_nat del: of_nat_add)
  next
    case False
    with 1 show ?thesis by (subst ToString_index.simps) (simp add: is_digit_of_nat del: of_nat_add)
  qed
qed

lemma ToString_index_value: "decimal_value (ToString_index n) = n"
proof (induction n rule: ToString_index.induct)
  case (1 n)
  show ?case
  proof (cases "n < 10")
    case True
    then show ?thesis
      by (subst ToString_index.simps) (simp add: decimal_value_def digit_value_of_nat del: of_nat_add)
  next
    case False
    with 1 show ?thesis
      by (subst ToString_index.simps) (simp add: decimal_value_snoc digit_value_of_nat del: of_nat_add)
  qed
qed

lemma ToString_index_leading: "0 < n \<Longrightarrow> hd (ToString_index n) \<noteq> 0x30"
proof (induction n rule: ToString_index.induct)
  case (1 n)
  show ?case
  proof (cases "n < 10")
    case True
    have "digit_value (hd (ToString_index n)) = n"
      using True by (subst ToString_index.simps) (simp add: digit_value_of_nat del: of_nat_add)
    with "1.prems" show ?thesis by (auto simp: digit_value_def)
  next
    case False
    then have "0 < n div 10" by simp
    with 1 False have "hd (ToString_index (n div 10)) \<noteq> 0x30" by simp
    with False show ?thesis
      by (subst ToString_index.simps) (simp add: ToString_index_not_Nil)
  qed
qed

lemma ToString_index_decimal: "decimal_numeral n (ToString_index n)"
proof (cases "n = 0")
  case True
  have "ToString_index 0 = [0x30]" by (simp add: ToString_index.simps)
  with True show ?thesis
    by (simp add: decimal_numeral_def is_digit_def decimal_value_def digit_value_def)
next
  case False
  then show ?thesis
    by (simp add: decimal_numeral_def ToString_index_not_Nil ToString_index_digits
        ToString_index_value ToString_index_leading)
qed

lemma ToString_index_examples:
  "ToString_index 0 = js ''0''" "ToString_index 7 = js ''7''" "ToString_index 10 = js ''10''"
  "ToString_index 123 = js ''123''" "ToString_index 4096 = js ''4096''"
  by (simp_all add: ToString_index.simps js_def)

text \<open>\<open>path.join\<close> on paths that are not plain.\<close>

lemma path_join_examples:
  "path_join (js ''/a/'') (js ''0_x.js'') = js ''/a/0_x.js''"
  "path_join (js '''') (js ''0_x.js'') = js ''0_x.js''"
  "path_join (js ''./foo.md'') (js ''0_x.js'') = js ''foo.md/0_x.js''"
  "path_join (js ''/a//foo.md'') (js ''0_x.js'') = js ''/a/foo.md/0_x.js''"
  "path_join (js ''/a/foo.md'') (js ''0_a/../b.js'') = js ''/a/foo.md/b.js''"
  "path_join (js ''/a/foo.md'') (js ''0_a/./b.js/'') = js ''/a/foo.md/0_a/b.js/''"
  "path_join (js ''../a'') (js ''0_../../../x'') = js ''../x''"
  "path_join (js ''/a'') (js ''0_../../../x'') = js ''/x''"
  "path_join (js ''a'') (js ''..'') = js ''.''"
  "path_join (js ''a/'') (js ''../'') = js ''./''"
  by (simp_all add: path_join_def path_normalize_def js_def)

text \<open>
  Claim C1, as the code has it. For a structured block \<open>{ text, filename }\<close> at position
  \<open>i\<close> of the returned array (the file being an allocated object), element \<open>i\<close> of
  \<open>files\<close> is a new file whose path is \<open>path.join(file.path, i + "_" + filename)\<close>, with
  \<open>i\<close> as its decimal numeral, whose physical path is that of the file and whose body is
  the block's text. The joined path is \<open>file.path + "/" + i + "_" + filename\<close> when
  \<open>file.path\<close> and \<open>i + "_" + filename\<close> are plain: segments separated by single \<open>/\<close>,
  none of them empty, \<open>.\<close> or \<open>..\<close> (\<open>file.path\<close> may start with \<open>/\<close>). The file is read
  as the processor left it.
\<close>

theorem preprocessSync_derived_file:
  assumes "getBodyWithBOM file h = (Normal b, h1)"
    and "preprocess (processor cfg) b (path (vfiles h1 file)) h1 = (Normal (BlockArray bs), h2)"
    and "file < next_addr h2"
    and "i < length bs" and "bs ! i = StructuredBlock t name"
  shows "\<exists>fs h3 v. preprocessSync file cfg h
                      = (Normal \<lparr>ok = True, files = Some fs, errors = None\<rparr>, h3)
           \<and> fs ! i = VFileRef v
           \<and> decimal_numeral i (ToString_index i)
           \<and> path (vfiles h3 v)
               = path_join (path (vfiles h2 file)) (ToString_index i @ js ''_'' @ name)
           \<and> (plain_path (path (vfiles h2 file))
                \<and> plain_relative (ToString_index i @ js ''_'' @ name) \<longrightarrow>
              path (vfiles h3 v)
                = path (vfiles h2 file) @ js ''/'' @ ToString_index i @ js ''_'' @ name)
           \<and> physicalPath (vfiles h3 v) = physicalPath (vfiles h2 file)
           \<and> body (vfiles h3 v) = Text t"
proof -
  let ?fs = "fst (map_blocks file 0 bs h2)"
  let ?h3 = "snd (map_blocks file 0 bs h2)"
  have run: "preprocessSync file cfg h
               = (Normal \<lparr>ok = True, files = Some ?fs, errors = None\<rparr>, ?h3)"
    using assms(1,2) by (rule preprocessSync_blocks)
  from map_blocks_nth [OF assms(3,4), of 0] assms(5)
  obtain v where v: "?fs ! i = VFileRef v"
    and f: "vfiles ?h3 v =
              \<lparr>path = path_join (path (vfiles h2 file)) (ToString_index i @ js ''_'' @ name),
               physicalPath = physicalPath (vfiles h2 file), body = Text t, bom = False\<rparr>"
    by (auto simp: derived_from_def split: derived.splits)
  from f have "plain_path (path (vfiles h2 file))
                \<and> plain_relative (ToString_index i @ js ''_'' @ name) \<longrightarrow>
              path (vfiles ?h3 v)
                = path (vfiles h2 file) @ js ''/'' @ ToString_index i @ js ''_'' @ name"
    by (simp add: path_join_plain)
  with run v f ToString_index_decimal [of i] show ?thesis by simp
qed

theorem preprocessSync_derived_file_witness:
  "(\<exists>fs h3 v. preprocessSync 0 \<lparr>processor = markdown_processor\<rparr> (text_heap False)
                = (Normal \<lparr>ok = True, files = Some fs, errors = None\<rparr>, h3)
      \<and> fs ! 1 = VFileRef v
      \<and> path (vfiles h3 v) = js ''/a/foo.md/1_y.js''
      \<and> physicalPath (vfiles h3 v) = js ''/a/foo.md''
      \<and> body (vfiles h3 v) = Text (js ''b''))
   \<and> (\<exists>fs h3 v. preprocessSync 0 \<lparr>processor = twelve_blocks_processor\<rparr> (text_heap False)
                = (Normal \<lparr>ok = True, files = Some fs, errors = None\<rparr>, h3)
      \<and> fs ! 11 = VFileRef v
      \<and> path (vfiles h3 v) = js ''/a/foo.md/11_x.js''
      \<and> physicalPath (vfiles h3 v) = js ''/a/foo.md''
      \<and> body (vfiles h3 v) = Text (js ''a''))"
proof -
  have g: "getBodyWithBOM 0 (text_heap False) = (Normal (Text (js ''# Title'')), text_heap False)"
    by (simp add: getBodyWithBOM_def text_heap_def foo_md_def)
  have a: "0 < next_addr (text_heap False)" by (simp add: text_heap_def)
  have parent: "path (vfiles (text_heap False) 0) = js ''/a/foo.md''"
    "physicalPath (vfiles (text_heap False) 0) = js ''/a/foo.md''"
    by (simp_all add: text_heap_def foo_md_def)
  have first: "\<exists>fs h3 v. preprocessSync 0 \<lparr>processor = markdown_processor\<rparr> (text_heap False)
                = (Normal \<lparr>ok = True, files = Some fs, errors = None\<rparr>, h3)
      \<and> fs ! 1 = VFileRef v
      \<and> path (vfiles h3 v) = js ''/a/foo.md/1_y.js''
      \<and> physicalPath (vfiles h3 v) = js ''/a/foo.md''
      \<and> body (vfiles h3 v) = Text (js ''b'')"
  proof -
    let ?bs = "[StructuredBlock (js ''a'') (js ''x.js''), StructuredBlock (js ''b'') (js ''y.js'')]"
    have p: "preprocess (processor \<lparr>processor = markdown_processor\<rparr>) (Text (js ''# Title''))
               (path (vfiles (text_heap False) 0)) (text_heap False)
             = (Normal (BlockArray ?bs), text_heap False)"
      by (simp add: markdown_processor_def)
    have i: "1 < length ?bs" by simp
    have b: "?bs ! 1 = StructuredBlock (js ''b'') (js ''y.js'')" by simp
    have plain: "plain_path (js ''/a/foo.md'')"
      "plain_relative (ToString_index 1 @ js ''_'' @ js ''y.js'')"
      by (simp_all add: plain_path_def plain_relative_def plain_segment_def js_def
          ToString_index.simps)
    have cat: "js ''/a/foo.md'' @ js ''/'' @ ToString_index 1 @ js ''_'' @ js ''y.js''
                 = js ''/a/foo.md/1_y.js''"
      by (simp add: js_def ToString_index.simps)
    from preprocessSync_derived_file [OF g p a i b] parent plain cat
    show ?thesis by (auto simp del: append.simps)
  qed
  have second: "\<exists>fs h3 v. preprocessSync 0 \<lparr>processor = twelve_blocks_processor\<rparr>
                              (text_heap False)
                = (Normal \<lparr>ok = True, files = Some fs, errors = None\<rparr>, h3)
      \<and> fs ! 11 = VFileRef v
      \<and> path (vfiles h3 v) = js ''/a/foo.md/11_x.js''
      \<and> physicalPath (vfiles h3 v) = js ''/a/foo.md''
      \<and> body (vfiles h3 v) = Text (js ''a'')"
  proof -
    let ?bs = "replicate 12 (StructuredBlock (js ''a'') (js ''x.js''))"
    have p: "preprocess (processor \<lparr>processor = twelve_blocks_processor\<rparr>)
               (Text (js ''# Title'')) (path (vfiles (text_heap False) 0)) (text_heap False)
             = (Normal (BlockArray ?bs), text_heap False)"
      by (simp add: twelve_blocks_processor_def)
    have i: "11 < length ?bs" by simp
    have b: "?bs ! 11 = StructuredBlock (js ''a'') (js ''x.js'')" by simp
    have plain: "plain_path (js ''/a/foo.md'')"
      "plain_relative (ToString_index 11 @ js ''_'' @ js ''x.js'')"
      by (simp_all add: plain_path_def plain_relative_def plain_segment_def js_def
          ToString_index.simps)
    have cat: "js ''/a/foo.md'' @ js ''/'' @ ToString_index 11 @ js ''_'' @ js ''x.js''
                 = js ''/a/foo.md/11_x.js''"
      by (simp add: js_def ToString_index.simps)
    from preprocessSync_derived_file [OF g p a i b] parent plain cat
    show ?thesis by (auto simp del: append.simps)
  qed
  from first second show ?thesis by blast
qed

text \<open>
  The joined path is not always the concatenation that claim C1 states: for the parent
  \<open>./foo.md\<close> and the block \<open>x.js\<close> at position 0, \<open>path.join\<close> gives \<open>foo.md/0_x.js\<close>,
  not \<open>./foo.md/0_x.js\<close>.
\<close>

theorem preprocessSync_derived_path_not_concatenation:
  "fst (preprocessSync 0 \<lparr>processor = markdown_processor\<rparr> relative_heap)
     = Normal \<lparr>ok = True, files = Some [VFileRef 1, VFileRef 2], errors = None\<rparr>
   \<and> path (vfiles relative_heap 0) = js ''./foo.md''
   \<and> path (vfiles (snd (preprocessSync 0 \<lparr>processor = markdown_processor\<rparr> relative_heap)) 1)
       = js ''foo.md/0_x.js''
   \<and> path (vfiles (snd (preprocessSync 0 \<lparr>processor = markdown_processor\<rparr> relative_heap)) 1)
       \<noteq> path (vfiles relative_heap 0) @ js ''/'' @ ToString_index 0 @ js ''_'' @ js ''x.js''"
  by (simp add: preprocessSync_def getBodyWithBOM_def markdown_processor_def relative_heap_def
      foo_md_def new_VFile_def path_join_def path_normalize_def js_def ToString_index.simps)


subsection \<open>Frame\<close>

lemma preprocessSync_heap:
  assumes "getBodyWithBOM file h = (Normal b, h1)"
    and "preprocess (processor cfg) b (path (vfiles h1 file)) h1 = (r, h2)"
  shows "preserves h2 (snd (preprocessSync file cfg h))"
proof (cases r)
  case (Throw ex)
  with assms show ?thesis by (simp add: preprocessSync_def Let_def preserves_refl)
next
  case (Normal blocks)
  show ?thesis
  proof (cases blocks)
    case (BlockArray bs)
    with Normal assms have "snd (preprocessSync file cfg h) = snd (map_blocks file 0 bs h2)"
      by (simp add: preprocessSync_blocks)
    then show ?thesis by (simp add: map_blocks_preserves)
  next
    case Thenable
    with Normal assms show ?thesis by (simp add: preprocessSync_def Let_def preserves_refl)
  next
    case (Plain v)
    with Normal assms show ?thesis
      by (simp add: preprocessSync_def Let_def preserves_refl split: completion.splits)
  qed
qed

lemma preprocessSync_preserves:
  assumes "\<And>b p g. preserves g (snd (preprocess (processor cfg) b p g))"
  shows "preserves h (snd (preprocessSync file cfg h))"
proof -
  obtain rb h1 where g: "getBodyWithBOM file h = (rb, h1)" by (cases "getBodyWithBOM file h")
  have h1: "preserves h h1" using getBodyWithBOM_preserves [of h "file"] g by simp
  show ?thesis
  proof (cases rb)
    case (Throw e)
    with g have "snd (preprocessSync file cfg h) = h1"
      by (simp add: preprocessSync_def Let_def)
    with h1 show ?thesis by simp
  next
    case (Normal b)
    obtain r h2 where p: "preprocess (processor cfg) b (path (vfiles h1 file)) h1 = (r, h2)"
      by (cases "preprocess (processor cfg) b (path (vfiles h1 file)) h1")
    have "preserves h1 h2" using assms [of h1 b "path (vfiles h1 file)"] p by simp
    moreover have "preserves h2 (snd (preprocessSync file cfg h))"
      using g Normal p by (simp add: preprocessSync_heap)
    ultimately show ?thesis using h1 by (blast intro: preserves_trans)
  qed
qed

text \<open>
  Claim C9. The file and every byte array are objects of the heap; messages and the
  configuration are passed as they are, and the objects they refer to are in the
  extension of the heap. \<open>getBodyWithBOM\<close> preserves every allocated object, and the
  array it returns for a byte body with \<open>bom\<close> true is a new one, the body's own array
  keeping its contents. \<open>preprocessSync\<close> preserves every object of the heap that the
  call of \<open>preprocess\<close> left, so with a processor that preserves the heap it preserves
  the heap it was given. \<open>postprocessSync\<close> leaves the heap as the call of
  \<open>postprocess\<close> left it, or as it was when there is no \<open>postprocess\<close>.
\<close>

theorem no_input_is_mutated:
  "preserves h (snd (getBodyWithBOM file h))
   \<and> (bom (vfiles h file) \<and> body (vfiles h file) = ByteSeq a \<and> a < next_addr h \<longrightarrow>
        (\<exists>new. fst (getBodyWithBOM file h) = Normal (ByteSeq new) \<and> next_addr h \<le> new
               \<and> new \<noteq> a
               \<and> uint8arrays (snd (getBodyWithBOM file h)) a = uint8arrays h a))
   \<and> (getBodyWithBOM file h = (Normal b, h1)
        \<and> preprocess (processor cfg) b (path (vfiles h1 file)) h1 = (r, h2) \<longrightarrow>
        preserves h2 (snd (preprocessSync file cfg h)))
   \<and> ((\<forall>b p g. preserves g (snd (preprocess (processor cfg) b p g))) \<longrightarrow>
        preserves h (snd (preprocessSync file cfg h)))
   \<and> (\<forall>post. postprocess (processor cfg) = Some post \<longrightarrow>
        snd (postprocessSync file messages cfg h)
          = snd (post messages (path (vfiles h file)) h))
   \<and> (postprocess (processor cfg) = None \<longrightarrow>
        snd (postprocessSync file messages cfg h) = h)"
proof (intro conjI impI allI)
  show "preserves h (snd (getBodyWithBOM file h))" by (rule getBodyWithBOM_preserves)
next
  assume "bom (vfiles h file) \<and> body (vfiles h file) = ByteSeq a \<and> a < next_addr h"
  then show "\<exists>new. fst (getBodyWithBOM file h) = Normal (ByteSeq new) \<and> next_addr h \<le> new
               \<and> new \<noteq> a
               \<and> uint8arrays (snd (getBodyWithBOM file h)) a = uint8arrays h a"
    by (simp add: getBodyWithBOM_bytes)
next
  assume "getBodyWithBOM file h = (Normal b, h1)
        \<and> preprocess (processor cfg) b (path (vfiles h1 file)) h1 = (r, h2)"
  then show "preserves h2 (snd (preprocessSync file cfg h))"
    by (simp add: preprocessSync_heap)
next
  assume "\<forall>b p g. preserves g (snd (preprocess (processor cfg) b p g))"
  then show "preserves h (snd (preprocessSync file cfg h))"
    by (simp add: preprocessSync_preserves)
next
  fix post assume "postprocess (processor cfg) = Some post"
  then show "snd (postprocessSync file messages cfg h)
               = snd (post messages (path (vfiles h file)) h)"
    by (simp add: postprocessSync_def)
next
  assume "postprocess (processor cfg) = None"
  then show "snd (postprocessSync file messages cfg h) = h"
    by (simp add: postprocessSync_def)
qed

theorem no_input_is_mutated_witness:
  "(\<exists>new. fst (getBodyWithBOM 0 (bytes_heap True)) = Normal (ByteSeq new) \<and> new \<noteq> 1
          \<and> uint8arrays (snd (getBodyWithBOM 0 (bytes_heap True))) 1 = [0x68, 0x69])
   \<and> vfiles (snd (getBodyWithBOM 0 (bytes_heap True))) 0 = vfiles (bytes_heap True) 0
   \<and> vfiles (snd (preprocessSync 0 \<lparr>processor = markdown_processor\<rparr> (bytes_heap True))) 0
       = vfiles (bytes_heap True) 0
   \<and> uint8arrays (snd (preprocessSync 0 \<lparr>processor = markdown_processor\<rparr> (bytes_heap True))) 1
       = [0x68, 0x69]
   \<and> preserves (text_heap False)
         (snd (preprocessSync 0 \<lparr>processor = legacy_processor\<rparr> (text_heap False)))
   \<and> snd (postprocessSync 0 [[sample_message], []] \<lparr>processor = legacy_processor\<rparr>
            (text_heap False)) = text_heap False
   \<and> snd (postprocessSync 0 [[sample_message], []] \<lparr>processor = markdown_processor\<rparr>
            (text_heap False)) = text_heap False"
proof -
  note markdown = no_input_is_mutated
      [of "bytes_heap True" 0 1 _ _ "\<lparr>processor = markdown_processor\<rparr>"]
  note legacy = no_input_is_mutated
      [of "text_heap False" 0 _ _ _ "\<lparr>processor = legacy_processor\<rparr>" _ _
          "[[sample_message], []]"]
  note none = no_input_is_mutated
      [of "text_heap False" 0 _ _ _ "\<lparr>processor = markdown_processor\<rparr>" _ _
          "[[sample_message], []]"]
  have b: "bom (vfiles (bytes_heap True) 0) \<and> body (vfiles (bytes_heap True) 0) = ByteSeq 1
           \<and> 1 < next_addr (bytes_heap True)"
    and arr: "uint8arrays (bytes_heap True) 1 = [0x68, 0x69]"
    and lim: "next_addr (bytes_heap True) = 2"
    by (simp_all add: bytes_heap_def foo_md_def)
  have proc: "\<forall>b p g. preserves g
                (snd (preprocess (processor \<lparr>processor = markdown_processor\<rparr>) b p g))"
    by (simp add: markdown_processor_def preserves_refl)
  have post: "postprocess (processor \<lparr>processor = legacy_processor\<rparr>)
                = Some (\<lambda>messages p h. (Normal [concat messages], h))"
    "postprocess (processor \<lparr>processor = markdown_processor\<rparr>) = None"
    by (simp_all add: legacy_processor_def markdown_processor_def)
  from markdown [THEN conjunct2, THEN conjunct1] b
  have "\<exists>new. fst (getBodyWithBOM 0 (bytes_heap True)) = Normal (ByteSeq new)
          \<and> next_addr (bytes_heap True) \<le> new \<and> new \<noteq> 1
          \<and> uint8arrays (snd (getBodyWithBOM 0 (bytes_heap True))) 1
              = uint8arrays (bytes_heap True) 1"
    by (rule mp)
  with arr
  have 1: "\<exists>new. fst (getBodyWithBOM 0 (bytes_heap True)) = Normal (ByteSeq new) \<and> new \<noteq> 1
          \<and> uint8arrays (snd (getBodyWithBOM 0 (bytes_heap True))) 1 = [0x68, 0x69]"
    by auto
  from markdown [THEN conjunct1]
  have "preserves (bytes_heap True) (snd (getBodyWithBOM 0 (bytes_heap True)))" .
  with lim have 2: "vfiles (snd (getBodyWithBOM 0 (bytes_heap True))) 0
                      = vfiles (bytes_heap True) 0"
    by (simp add: preserves_def)
  from markdown [THEN conjunct2, THEN conjunct2, THEN conjunct2, THEN conjunct1] proc
  have "preserves (bytes_heap True)
          (snd (preprocessSync 0 \<lparr>processor = markdown_processor\<rparr> (bytes_heap True)))"
    by (rule mp)
  with lim arr
  have 3: "vfiles (snd (preprocessSync 0 \<lparr>processor = markdown_processor\<rparr> (bytes_heap True))) 0
             = vfiles (bytes_heap True) 0
         \<and> uint8arrays (snd (preprocessSync 0 \<lparr>processor = markdown_processor\<rparr>
                                 (bytes_heap True))) 1 = [0x68, 0x69]"
    by (simp add: preserves_def)
  from legacy [THEN conjunct2, THEN conjunct2, THEN conjunct2, THEN conjunct2, THEN conjunct1]
    post(1)
  have 4: "snd (postprocessSync 0 [[sample_message], []] \<lparr>processor = legacy_processor\<rparr>
                  (text_heap False)) = text_heap False"
    by simp
  from none [THEN conjunct2, THEN conjunct2, THEN conjunct2, THEN conjunct2, THEN conjunct2]
    post(2)
  have 5: "snd (postprocessSync 0 [[sample_message], []] \<lparr>processor = markdown_processor\<rparr>
                  (text_heap False)) = text_heap False"
    by simp
  have "getBodyWithBOM 0 (text_heap False) = (Normal (Text (js ''# Title'')), text_heap False)
        \<and> preprocess (processor \<lparr>processor = legacy_processor\<rparr>) (Text (js ''# Title''))
              (path (vfiles (text_heap False) 0)) (text_heap False)
            = (Normal (BlockArray [StringBlock (js ''plain text'')]), text_heap False)"
    by (simp add: getBodyWithBOM_def text_heap_def foo_md_def legacy_processor_def)
  with no_input_is_mutated
      [of "text_heap False" 0 _ "Text (js ''# Title'')" "text_heap False"
          "\<lparr>processor = legacy_processor\<rparr>"
          "Normal (BlockArray [StringBlock (js ''plain text'')])" "text_heap False",
       THEN conjunct2, THEN conjunct2, THEN conjunct1]
  have 6: "preserves (text_heap False)
             (snd (preprocessSync 0 \<lparr>processor = legacy_processor\<rparr> (text_heap False)))"
    by (rule mp)
  from 1 2 3 4 5 6 show ?thesis by blast
qed


end
